theory Spec2Isabelle
  imports Main "HOL-Library.Word"
begin

unbundle bit_operations_syntax

section \<open>Machine types and errors\<close>

type_synonym u8 = "8 word"
type_synonym u16 = "16 word"
type_synonym u32 = "32 word"
type_synonym u64 = "64 word"

text \<open>
  A \<open>float32\<close> is carried as its IEEE-754 bit pattern (\<open>math.Float32frombits\<close> and
  \<open>math.Float32bits\<close> are inverse bijections), so a value read from a block is the
  little-endian word of its four bytes.
\<close>

type_synonym f32 = "32 word"

text \<open>
  The Go functions report failure by returning \<open>nil\<close> (or a non-nil \<open>error\<close>); the
  model returns \<open>Inl\<close> of a tag that names the return statement that fired.
\<close>

datatype err =
    NoSuchChromosome      \<comment> \<open>\<open>bwGetTid\<close> returned \<open>^uint32(0)\<close>\<close>
  | IndexLoadFailed       \<comment> \<open>\<open>readRTreeIdx\<close> / \<open>bwGetRTreeNode\<close> returned an error\<close>
  | NotALeaf              \<comment> \<open>\<open>overlapsLeaf\<close> on a node with \<open>IsLeaf == 0\<close>\<close>
  | CountMismatch         \<comment> \<open>\<open>overlapsLeaf\<close>: \<open>idx != o.N\<close>\<close>
  | ReadFailed            \<comment> \<open>\<open>bwSetPos\<close> failed, or \<open>Read\<close> failed or was short\<close>
  | DecompressionError
  | TruncatedBlock        \<comment> \<open>fewer than 24 bytes of block\<close>
  | UnknownSectionType u8
  | NoZoomHeaders
  | InvalidZoomIndex
  | NilDereference        \<comment> \<open>the Go code would panic on a nil pointer\<close>
  | IndexOutOfRange       \<comment> \<open>the Go code would panic on a slice index\<close>
  | InvalidIndexOffset    \<comment> \<open>\<open>bwReadZoomIndex\<close> with offset 0\<close>
  | NoSuitableZoomLevel   \<comment> \<open>\<open>GetZoomValues\<close>: the selector returned a negative index\<close>
  | NegativeLength        \<comment> \<open>the Go code would panic in \<open>make\<close>\<close>
  | DivisionByZero        \<comment> \<open>the Go code would panic on an integer division\<close>
  | IteratorCreationFailed  \<comment> \<open>\<open>ReadBigWigSignal\<close>: the constructor returned the nil iterator\<close>

definition TID_NONE :: u32 where
  "TID_NONE = 0xFFFFFFFF"

section \<open>Little-endian decoding\<close>

text \<open>\<open>binary.LittleEndian.Uint32(b[0:4])\<close> and \<open>Uint16(b[0:2])\<close> on the first bytes of \<open>b\<close>.\<close>

definition le32 :: "u8 list \<Rightarrow> u32" where
  "le32 b = ucast (b ! 0) OR push_bit 8 (ucast (b ! 1))
            OR push_bit 16 (ucast (b ! 2)) OR push_bit 24 (ucast (b ! 3))"

definition le16 :: "u8 list \<Rightarrow> u16" where
  "le16 b = ucast (b ! 0) OR push_bit 8 (ucast (b ! 1))"

section \<open>The R-tree index and the overlap walker\<close>

text \<open>
  \<open>bwRTreeNode_t\<close> keeps one parallel slice per field, all of length \<open>NChildren\<close>
  (\<open>bwGetRTreeNode\<close> allocates them so); the model keeps one entry per child index.
  \<open>Size\<close> is read only in leaves, \<open>Child\<close> only in branches. \<open>Child\<close> is the sub-node
  that the walker finds in that slot: the cached pointer, or the node that
  \<open>bwGetRTreeNode(fp, DataOffset[i])\<close> loads on first touch; \<open>None\<close> when that load
  returns an error.
\<close>

datatype bwRTreeNode = RTreeNode (IsLeaf: u8) (children: "rchild list")
and rchild = RChild (ChrIdxStart: u32) (BaseStart: u32) (ChrIdxEnd: u32) (BaseEnd: u32)
                    (DataOffset: u64) (Size: u64) (Child: "bwRTreeNode option")

text \<open>
  \<open>bwOverlapBlock_t\<close>: the slices \<open>Offset\<close> and \<open>Size\<close>, zipped; \<open>N\<close> is the length
  (every constructor in the source keeps \<open>N = len(Offset) = len(Size)\<close>).
\<close>

type_synonym bwOverlapBlock = "(u64 \<times> u64) list"

text \<open>
  First loop of \<open>overlapsLeaf\<close>: counts the overlapping children into \<open>o.N\<close>. Note the
  \<open>break\<close> where a child that spans several chromosomes starts at or after \<open>end\<close>.
\<close>

fun leaf_count :: "rchild list \<Rightarrow> u32 \<Rightarrow> u32 \<Rightarrow> u32 \<Rightarrow> nat \<Rightarrow> nat" where
  "leaf_count [] tid start end n = n"
| "leaf_count (c # cs) tid start end n =
     (if tid < ChrIdxStart c \<or> tid > ChrIdxEnd c then leaf_count cs tid start end n
      else if ChrIdxStart c \<noteq> ChrIdxEnd c then
        (if tid = ChrIdxStart c then
           (if BaseStart c \<ge> end then n
            else leaf_count cs tid start end (n + 1))
         else if tid = ChrIdxEnd c then
           (if BaseEnd c \<le> start then leaf_count cs tid start end n
            else leaf_count cs tid start end (n + 1))
         else leaf_count cs tid start end (n + 1))
      else
        (if BaseStart c \<ge> end \<or> BaseEnd c \<le> start then leaf_count cs tid start end n
         else leaf_count cs tid start end (n + 1)))"

text \<open>
  Third step of \<open>overlapsLeaf\<close>: fills \<open>Offset[idx]\<close>, \<open>Size[idx]\<close> and stops once
  \<open>idx >= o.N\<close>. The accumulator holds the \<open>idx\<close> entries written so far.
\<close>

fun leaf_fill :: "rchild list \<Rightarrow> u32 \<Rightarrow> u32 \<Rightarrow> u32 \<Rightarrow> nat \<Rightarrow> bwOverlapBlock \<Rightarrow> bwOverlapBlock" where
  "leaf_fill [] tid start end n acc = acc"
| "leaf_fill (c # cs) tid start end n acc =
     (if tid < ChrIdxStart c \<or> tid > ChrIdxEnd c then leaf_fill cs tid start end n acc
      else if ChrIdxStart c \<noteq> ChrIdxEnd c then
        (if tid = ChrIdxStart c then
           (if BaseStart c \<ge> end then leaf_fill cs tid start end n acc
            else if length acc + 1 \<ge> n then acc @ [(DataOffset c, Size c)]
            else leaf_fill cs tid start end n (acc @ [(DataOffset c, Size c)]))
         else if tid = ChrIdxEnd c then
           (if BaseEnd c \<le> start then leaf_fill cs tid start end n acc
            else if length acc + 1 \<ge> n then acc @ [(DataOffset c, Size c)]
            else leaf_fill cs tid start end n (acc @ [(DataOffset c, Size c)]))
         else if length acc + 1 \<ge> n then acc @ [(DataOffset c, Size c)]
         else leaf_fill cs tid start end n (acc @ [(DataOffset c, Size c)]))
      else
        (if BaseStart c \<ge> end \<or> BaseEnd c \<le> start then leaf_fill cs tid start end n acc
         else if length acc + 1 \<ge> n then acc @ [(DataOffset c, Size c)]
         else leaf_fill cs tid start end n (acc @ [(DataOffset c, Size c)])))"

definition overlapsLeaf :: "bwRTreeNode \<Rightarrow> u32 \<Rightarrow> u32 \<Rightarrow> u32 \<Rightarrow> err + bwOverlapBlock" where
  "overlapsLeaf node tid start end =
     (if IsLeaf node = 0 then Inl NotALeaf
      else let n = leaf_count (children node) tid start end 0 in
        if n = 0 then Inr []
        else let filled = leaf_fill (children node) tid start end n [] in
          if length filled \<noteq> n then Inl CountMismatch else Inr filled)"

definition mergeOverlapBlocks :: "bwOverlapBlock \<Rightarrow> bwOverlapBlock \<Rightarrow> bwOverlapBlock" where
  "mergeOverlapBlocks b1 b2 =
     (if length b2 = 0 then b1 else if length b1 = 0 then b2 else b1 @ b2)"

text \<open>The tests of \<open>overlapsNonLeaf\<close> that end in \<open>continue\<close>.\<close>

definition nonLeaf_skips :: "rchild \<Rightarrow> u32 \<Rightarrow> u32 \<Rightarrow> u32 \<Rightarrow> bool" where
  "nonLeaf_skips c tid start end =
     (if tid < ChrIdxStart c \<or> tid > ChrIdxEnd c then True
      else if ChrIdxStart c \<noteq> ChrIdxEnd c then
        (if tid = ChrIdxStart c \<and> BaseStart c \<ge> end then True
         else if tid = ChrIdxEnd c \<and> BaseEnd c \<le> start then True
         else False)
      else (if end \<le> BaseStart c \<or> start \<ge> BaseEnd c then True else False))"

fun overlapsNonLeaf :: "bwRTreeNode \<Rightarrow> u32 \<Rightarrow> u32 \<Rightarrow> u32 \<Rightarrow> err + bwOverlapBlock"
and nonLeaf_loop :: "rchild list \<Rightarrow> u32 \<Rightarrow> u32 \<Rightarrow> u32 \<Rightarrow> bwOverlapBlock \<Rightarrow> err + bwOverlapBlock"
and nonLeaf_child :: "rchild \<Rightarrow> u32 \<Rightarrow> u32 \<Rightarrow> u32 \<Rightarrow> err + bwOverlapBlock"
where
  "overlapsNonLeaf (RTreeNode l cs) tid start end = nonLeaf_loop cs tid start end []"
| "nonLeaf_loop [] tid start end output = Inr output"
| "nonLeaf_loop (c # cs) tid start end output =
     (if nonLeaf_skips c tid start end then nonLeaf_loop cs tid start end output
      else case nonLeaf_child c tid start end of
             Inl e \<Rightarrow> Inl e
           | Inr nodeBlocks \<Rightarrow>
               nonLeaf_loop cs tid start end (mergeOverlapBlocks output nodeBlocks))"
| "nonLeaf_child (RChild cs bs ce be off sz None) tid start end = Inl IndexLoadFailed"
| "nonLeaf_child (RChild cs bs ce be off sz (Some n)) tid start end =
     (if IsLeaf n \<noteq> 0 then overlapsLeaf n tid start end
      else overlapsNonLeaf n tid start end)"

definition walkRTreeNodes :: "bwRTreeNode \<Rightarrow> u32 \<Rightarrow> u32 \<Rightarrow> u32 \<Rightarrow> err + bwOverlapBlock" where
  "walkRTreeNodes root tid start end =
     (if IsLeaf root \<noteq> 0 then overlapsLeaf root tid start end
      else overlapsNonLeaf root tid start end)"


section \<open>The open file\<close>

record chromList =
  NKeys :: "64 word"
  Chrom :: "string list"
  Len :: "u32 list"

record bwRTree =
  RootOffset :: u64
  Root :: "bwRTreeNode option"

record bwZoomHdr =
  Level :: "u32 list"
  IndexOffset :: "u64 list"
  ZIdx :: "bwRTree option list"

text \<open>
  \<open>bigWigFile_t\<close> with the fields the read path uses (\<open>Hdr\<close> is never nil once
  \<open>OpenBigWig\<close> has returned; its fields \<open>bufsize\<close>, \<open>indexoffset\<close> and \<open>ZoomHdrs\<close>
  are inlined). What \<open>fp.URL\<close> delivers is given by four functions of the file's
  content, because every access of the read path seeks to an absolute offset first:
  \<^item> \<open>disk_index off\<close>: the tree header that \<open>readRTreeIdx\<close> parses at \<open>off\<close>
    (\<open>None\<close>: seek or read failed, or the magic number is wrong);
  \<^item> \<open>disk_node off\<close>: the node that \<open>bwGetRTreeNode\<close> parses at \<open>off\<close>;
  \<^item> \<open>disk_read off size\<close>: the buffer after \<open>bwSetPos(fp, off)\<close> and
    \<open>fp.URL.Read(make([]byte, size))\<close> (\<open>None\<close>: the seek failed, \<open>Read\<close> returned
    an error, or \<open>n != size\<close>);
  \<^item> \<open>inflate\<close>: \<open>decompressZlibDebug\<close> / \<open>decompressZlibSimple\<close>.
  The node and index caches (\<open>fp.Idx\<close>, \<open>node.Child[i]\<close>, \<open>zhdr.Idx[i]\<close>) only save
  a second load of the same bytes, so the functions below return results and not an
  updated file.
\<close>

record bigWigFile =
  bufsize :: u32
  indexoffset :: u64
  ZoomHdrs :: "bwZoomHdr option list"
  Cl :: chromList
  Idx :: "bwRTree option"
  Type :: int
  disk_index :: "u64 \<Rightarrow> bwRTree option"
  disk_node :: "u64 \<Rightarrow> bwRTreeNode option"
  disk_read :: "u64 \<Rightarrow> u64 \<Rightarrow> u8 list option"
  inflate :: "u8 list \<Rightarrow> u8 list option"

text \<open>
  \<open>bwGetTid\<close>: the first index \<open>i < uint32(NKeys)\<close> with \<open>Chrom[i] == chrom\<close>.
  \<open>bwReadchromList\<close> allocates \<open>Chrom\<close> with \<open>NKeys\<close> entries and only ever grows it,
  so the loop never indexes past the slice.
\<close>

fun tid_search :: "string list \<Rightarrow> string \<Rightarrow> u32 \<Rightarrow> u32" where
  "tid_search [] chrom i = TID_NONE"
| "tid_search (c # cs) chrom i = (if c = chrom then i else tid_search cs chrom (i + 1))"

definition bwGetTid :: "bigWigFile \<Rightarrow> string \<Rightarrow> u32" where
  "bwGetTid fp chrom =
     (if chrom = [] then TID_NONE
      else tid_search (take (unat (ucast (NKeys (Cl fp)) :: u32)) (Chrom (Cl fp))) chrom 0)"

definition readRTreeIdx :: "bigWigFile \<Rightarrow> u64 \<Rightarrow> err + bwRTree" where
  "readRTreeIdx fp offset =
     (case disk_index fp (if offset = 0 then indexoffset fp else offset) of
        None \<Rightarrow> Inl IndexLoadFailed
      | Some t \<Rightarrow> Inr t)"

definition bwGetRTreeNode :: "bigWigFile \<Rightarrow> u64 \<Rightarrow> err + bwRTreeNode" where
  "bwGetRTreeNode fp offset =
     (if offset \<noteq> 0 then
        (case disk_node fp offset of None \<Rightarrow> Inl IndexLoadFailed | Some n \<Rightarrow> Inr n)
      else case Idx fp of
             None \<Rightarrow> Inl NilDereference
           | Some t \<Rightarrow>
               (case disk_node fp (RootOffset t) of
                  None \<Rightarrow> Inl IndexLoadFailed
                | Some n \<Rightarrow> Inr n))"

definition bwGetOverlappingBlocks ::
  "bigWigFile \<Rightarrow> string \<Rightarrow> u32 \<Rightarrow> u32 \<Rightarrow> err + bwOverlapBlock" where
  "bwGetOverlappingBlocks fp chrom start end =
     (let tid = bwGetTid fp chrom in
      if tid = TID_NONE then Inl NoSuchChromosome
      else case (case Idx fp of None \<Rightarrow> readRTreeIdx fp (indexoffset fp) | Some t \<Rightarrow> Inr t) of
             Inl e \<Rightarrow> Inl e
           | Inr t \<Rightarrow>
               (case (case Root t of
                        None \<Rightarrow> bwGetRTreeNode (fp\<lparr>Idx := Some t\<rparr>) 0
                      | Some r \<Rightarrow> Inr r) of
                  Inl e \<Rightarrow> Inl e
                | Inr root \<Rightarrow> walkRTreeNodes root tid start end))"

section \<open>The block decoder\<close>

record bwDataHeader =
  hTid :: u32
  hStart :: u32
  hEnd :: u32
  hStep :: u32
  hSpan :: u32
  hType :: u8
  hNItems :: u16

definition bwFillDataHdr :: "u8 list \<Rightarrow> err + bwDataHeader" where
  "bwFillDataHdr b =
     (if length b < 24 then Inl TruncatedBlock
      else Inr \<lparr> hTid = le32 b, hStart = le32 (drop 4 b), hEnd = le32 (drop 8 b),
                 hStep = le32 (drop 12 b), hSpan = le32 (drop 16 b),
                 hType = b ! 20, hNItems = le16 (drop 22 b) \<rparr>)"

text \<open>
  \<open>bwOverlappingIntervals_t\<close>: the first \<open>L\<close> entries of \<open>Start\<close>, \<open>End\<close> and \<open>Value\<close>,
  zipped. \<open>pushIntervals\<close> writes entry \<open>L\<close> and increments \<open>L\<close>; the capacity \<open>M\<close> it
  maintains (\<open>roundup(L + 1)\<close>) is storage only.
\<close>

type_synonym interval = "u32 \<times> u32 \<times> f32"
type_synonym bwOverlappingIntervals = "interval list"

definition pushIntervals :: "bwOverlappingIntervals \<Rightarrow> u32 \<Rightarrow> u32 \<Rightarrow> f32 \<Rightarrow> bwOverlappingIntervals" where
  "pushIntervals o' start end v = o' @ [(start, end, v)]"

text \<open>
  The \<open>switch hdr.Type\<close> of one iteration of the record loop of
  \<open>bwGetOverlappingIntervalsCore\<close>: the new \<open>start\<close>, \<open>end\<close>, \<open>value\<close> and the rest
  of the payload \<open>p\<close>. In Go a \<open>break\<close> inside a \<open>switch\<close> leaves the switch only, so on
  a short payload the iteration goes on with \<open>end = 0\<close>, \<open>value = 0\<close> and the old
  \<open>start\<close>.
\<close>

definition read_item :: "bwDataHeader \<Rightarrow> u8 list \<Rightarrow> u32 \<Rightarrow> err + (u32 \<times> u32 \<times> f32 \<times> u8 list)" where
  "read_item hdr p start =
     (if hType hdr = 1 then
        (if length p < 12 then Inr (start, 0, 0, p)
         else Inr (le32 p, le32 (drop 4 p), le32 (drop 8 p), drop 12 p))
      else if hType hdr = 2 then
        (if length p < 8 then Inr (start, 0, 0, p)
         else Inr (le32 p, le32 p + hSpan hdr, le32 (drop 4 p), drop 8 p))
      else if hType hdr = 3 then
        (if length p < 4 then Inr (start, 0, 0, p)
         else Inr (start + hStep hdr, start + hStep hdr + hSpan hdr, le32 p, drop 4 p))
      else Inl (UnknownSectionType (hType hdr)))"

text \<open>
  The record loop \<open>for j := uint16(0); j < hdr.NItems; j++\<close>; the first argument is the
  number of iterations left.
\<close>

fun items_loop ::
  "nat \<Rightarrow> bwDataHeader \<Rightarrow> u8 list \<Rightarrow> u32 \<Rightarrow> u32 \<Rightarrow> u32 \<Rightarrow> bwOverlappingIntervals
     \<Rightarrow> err + bwOverlappingIntervals" where
  "items_loop 0 hdr p start ostart oend output = Inr output"
| "items_loop (Suc n) hdr p start ostart oend output =
     (case read_item hdr p start of
        Inl e \<Rightarrow> Inl e
      | Inr (start', end, v, p') \<Rightarrow>
          if end \<le> ostart \<or> start' \<ge> oend
          then items_loop n hdr p' start' ostart oend output
          else items_loop n hdr p' start' ostart oend (pushIntervals output start' end v))"

text \<open>Seek, read and (when \<open>fp.Hdr.bufsize > 0\<close>) decompress one block.\<close>

definition fetch_block :: "bigWigFile \<Rightarrow> u64 \<times> u64 \<Rightarrow> err + u8 list" where
  "fetch_block fp blk =
     (case disk_read fp (fst blk) (snd blk) of
        None \<Rightarrow> Inl ReadFailed
      | Some compBuf \<Rightarrow>
          if bufsize fp > 0 then
            (case inflate fp compBuf of
               None \<Rightarrow> Inl DecompressionError
             | Some uncompressed \<Rightarrow> Inr uncompressed)
          else Inr compBuf)"

text \<open>The rest of the body of the block loop, on the uncompressed bytes.\<close>

definition decode_block ::
  "u8 list \<Rightarrow> u32 \<Rightarrow> u32 \<Rightarrow> u32 \<Rightarrow> bwOverlappingIntervals \<Rightarrow> err + bwOverlappingIntervals" where
  "decode_block uncompressed tid ostart oend output =
     (if length uncompressed < 24 then Inl TruncatedBlock
      else case bwFillDataHdr uncompressed of
             Inl e \<Rightarrow> Inl e
           | Inr hdr \<Rightarrow>
               if hTid hdr \<noteq> tid then Inr output
               else items_loop (unat (hNItems hdr)) hdr (drop 24 uncompressed) (hStart hdr)
                      ostart oend output)"

fun core_loop ::
  "bigWigFile \<Rightarrow> bwOverlapBlock \<Rightarrow> u32 \<Rightarrow> u32 \<Rightarrow> u32 \<Rightarrow> bwOverlappingIntervals
     \<Rightarrow> err + bwOverlappingIntervals" where
  "core_loop fp [] tid ostart oend output = Inr output"
| "core_loop fp (blk # blks) tid ostart oend output =
     (case fetch_block fp blk of
        Inl e \<Rightarrow> Inl e
      | Inr uncompressed \<Rightarrow>
          (case decode_block uncompressed tid ostart oend output of
             Inl e \<Rightarrow> Inl e
           | Inr output' \<Rightarrow> core_loop fp blks tid ostart oend output'))"

definition bwGetOverlappingIntervalsCore ::
  "bigWigFile \<Rightarrow> bwOverlapBlock \<Rightarrow> u32 \<Rightarrow> u32 \<Rightarrow> u32 \<Rightarrow> err + bwOverlappingIntervals" where
  "bwGetOverlappingIntervalsCore fp o' tid ostart oend =
     (if length o' = 0 then Inr [] else core_loop fp o' tid ostart oend [])"

definition bwGetOverlappingIntervals ::
  "bigWigFile \<Rightarrow> string \<Rightarrow> u32 \<Rightarrow> u32 \<Rightarrow> err + bwOverlappingIntervals" where
  "bwGetOverlappingIntervals fp chrom start end =
     (let tid = bwGetTid fp chrom in
      if tid = TID_NONE then Inl NoSuchChromosome
      else case bwGetOverlappingBlocks fp chrom start end of
             Inl e \<Rightarrow> Inl e
           | Inr blocks \<Rightarrow> bwGetOverlappingIntervalsCore fp blocks tid start end)"


section \<open>The iterator\<close>

text \<open>
  \<open>bwOverlapIterator_t\<close>. \<open>Blocks\<close> and \<open>Intervals\<close> are the pointers (\<open>None\<close> is nil).
  \<open>Data\<close> is an \<open>interface{}\<close>: \<open>None\<close> is the nil interface, \<open>Some p\<close> an interface
  that holds the pointer \<open>p\<close>, and in Go such an interface is not nil even when \<open>p\<close> is.
  \<open>Offset\<close> and the block counts are \<open>uint64\<close> in the source; they count elements of
  slices held in memory and cannot wrap, so they are natural numbers here. The bigBed
  fields \<open>Entries\<close> and \<open>WithString\<close> are never set on the bigWig read path.
\<close>

record bwOverlapIterator =
  Bw :: bigWigFile
  Tid :: u32
  Start :: u32
  End :: u32
  Offset :: nat
  BlocksPerIteration :: u32
  Blocks :: "bwOverlapBlock option"
  Intervals :: "bwOverlappingIntervals option"
  Data :: "bwOverlappingIntervals option option"

text \<open>A result stored into a pointer variable: nil on failure.\<close>

definition ptr :: "err + 'a \<Rightarrow> 'a option" where
  "ptr r = (case r of Inl e \<Rightarrow> None | Inr v \<Rightarrow> Some v)"

definition bwOverlappingIntervalsIterator ::
  "bigWigFile \<Rightarrow> string \<Rightarrow> u32 \<Rightarrow> u32 \<Rightarrow> u32 \<Rightarrow> bwOverlapIterator option" where
  "bwOverlappingIntervalsIterator fp chrom start end blocksPerIteration =
     (let tid = bwGetTid fp chrom in
      if tid = TID_NONE then None
      else
        let blocks = ptr (bwGetOverlappingBlocks fp chrom start end);
            output = \<lparr> Bw = fp, Tid = tid, Start = start, End = end, Offset = 0,
                       BlocksPerIteration = blocksPerIteration, Blocks = blocks,
                       Intervals = None, Data = None \<rparr>;
            output' = (case blocks of
                         None \<Rightarrow> output
                       | Some bl \<Rightarrow>
                           output\<lparr> Intervals :=
                                     ptr (bwGetOverlappingIntervalsCore fp
                                            (take (unat blocksPerIteration) bl) tid start end),
                                   Offset := unat blocksPerIteration \<rparr>)
        in Some (output'\<lparr> Data := Some (Intervals output') \<rparr>))"

definition bwIteratorNext :: "bwOverlapIterator option \<Rightarrow> bwOverlapIterator option" where
  "bwIteratorNext iter =
     (case iter of
        None \<Rightarrow> None
      | Some it \<Rightarrow>
          (case Blocks it of
             None \<Rightarrow> None
           | Some blocks \<Rightarrow>
               let it1 = it\<lparr> Intervals := None, Data := None \<rparr> in
               if Offset it1 < length blocks then
                 let n = length blocks;
                     currentN = (if Offset it1 + unat (BlocksPerIteration it1) > n
                                 then n - Offset it1
                                 else unat (BlocksPerIteration it1));
                     currentBlocks = take currentN (drop (Offset it1) blocks);
                     it2 = (if Type (Bw it1) = 0 then
                              let r = ptr (bwGetOverlappingIntervalsCore (Bw it1) currentBlocks
                                             (Tid it1) (Start it1) (End it1))
                              in it1\<lparr> Intervals := r, Data := Some r \<rparr>
                            else it1);
                     it3 = it2\<lparr> Offset := Offset it2 + unat (BlocksPerIteration it2) \<rparr>
                 in if Intervals it3 = None then None else Some it3
               else Some it1))"

text \<open>
  The consuming loop, as \<open>ReadBigWigSignal\<close> writes it
  (\<open>for iter.Data != nil { ...; iter = bwIteratorNext(iter) }\<close>), collecting the
  intervals of each batch. With \<open>blocksPerIteration = 0\<close> the loop never ends, so the
  model counts steps: \<open>None\<close> means the fuel ran out. A nil iterator inside the loop
  is a nil dereference. A nil iterator from the constructor is a failure:
  \<open>ReadBigWigSignal\<close> prints that the iterator could not be created and returns nil,
  where a query that succeeds with nothing to report returns the empty slice.
\<close>

fun iter_loop ::
  "nat \<Rightarrow> bwOverlapIterator option \<Rightarrow> bwOverlappingIntervals
     \<Rightarrow> (err + bwOverlappingIntervals) option" where
  "iter_loop 0 iter acc = None"
| "iter_loop (Suc fuel) None acc = Some (Inl NilDereference)"
| "iter_loop (Suc fuel) (Some it) acc =
     (case Data it of
        None \<Rightarrow> Some (Inr acc)
      | Some d \<Rightarrow>
          iter_loop fuel (bwIteratorNext (Some it))
            (case Intervals it of None \<Rightarrow> acc | Some ivs \<Rightarrow> acc @ ivs))"

definition iterate_all ::
  "nat \<Rightarrow> bigWigFile \<Rightarrow> string \<Rightarrow> u32 \<Rightarrow> u32 \<Rightarrow> u32 \<Rightarrow> (err + bwOverlappingIntervals) option" where
  "iterate_all fuel fp chrom start end blocksPerIteration =
     (case bwOverlappingIntervalsIterator fp chrom start end blocksPerIteration of
        None \<Rightarrow> Some (Inl IteratorCreationFailed)
      | Some it \<Rightarrow> iter_loop fuel (Some it) [])"


section \<open>Per-base values\<close>

text \<open>
  \<open>float32(math.NaN())\<close>: the quiet NaN. \<open>f32_isNaN\<close> is \<open>math.IsNaN\<close> on the bit
  pattern: exponent all ones and a non-zero fraction.
\<close>

definition f32_NaN :: f32 where
  "f32_NaN = 0x7FC00000"

definition f32_isNaN :: "f32 \<Rightarrow> bool" where
  "f32_isNaN w = (w AND 0x7F800000 = 0x7F800000 \<and> w AND 0x007FFFFF \<noteq> 0)"

text \<open>
  The result of \<open>bwGetValues\<close>: a \<open>bwOverlappingIntervals_t\<close> of which only \<open>L\<close>,
  \<open>Start\<close> and \<open>Value\<close> are set.
\<close>

record bwValues =
  vL :: u32
  vStart :: "u32 list"
  vValue :: "f32 list"

text \<open>
  One iteration of the inner loop of the \<open>includeNA\<close> branch, for position \<open>j\<close>:
  \<open>if j < start || j >= end { continue }; output.Value[j-start] = v\<close>. The loop variable
  runs from \<open>Start[i]\<close> up to \<open>End[i]\<close> and cannot wrap, so it is a natural number here.
\<close>

definition na_write :: "u32 \<Rightarrow> u32 \<Rightarrow> f32 \<Rightarrow> nat \<Rightarrow> f32 list \<Rightarrow> f32 list" where
  "na_write start end v j out =
     (if j < unat start \<or> j \<ge> unat end then out else out[j - unat start := v])"

definition bwGetValues ::
  "bigWigFile \<Rightarrow> string \<Rightarrow> u32 \<Rightarrow> u32 \<Rightarrow> bool \<Rightarrow> err + bwValues" where
  "bwGetValues fp chrom start end includeNA =
     (case bwGetOverlappingIntervals fp chrom start end of
        Inl e \<Rightarrow> Inl e
      | Inr intermediate \<Rightarrow>
          if includeNA then
            let len = end - start;
                val = fold (\<lambda>(s, e, v) out. fold (na_write start end v) [unat s..<unat e] out)
                        intermediate (replicate (unat len) f32_NaN)
            in Inr \<lparr> vL = len, vStart = [], vValue = val \<rparr>
          else
            let clamped = map (\<lambda>(s, e, v). (if s < start then start else s,
                                               if e > end then end else e, v)) intermediate;
                n = fold (\<lambda>(s, e, v) n. n + (e - s)) clamped (0 :: u32);
                written = concat (map (\<lambda>(s, e, v).
                            map (\<lambda>j. (word_of_nat j :: u32, v))
                              (filter (\<lambda>j. \<not> (j < unat start \<or> j \<ge> unat end))
                                 [unat s..<unat e])) clamped)
            in if length written > unat n then Inl IndexOutOfRange
               else Inr \<lparr> vL = n,
                          vStart = map fst written @ replicate (unat n - length written) 0,
                          vValue = map snd written @ replicate (unat n - length written) 0 \<rparr>)"

section \<open>The records of a block, by layout\<close>

text \<open>
  The records that a payload holds, read off the three layouts alone (bedGraph: start,
  end, value; variableStep: start, value; fixedStep: value), with no query applied: at
  most \<open>n\<close> records, ending where the payload is too short for another one. The block
  decoder is compared with this list below.
\<close>

fun records :: "nat \<Rightarrow> bwDataHeader \<Rightarrow> u8 list \<Rightarrow> u32 \<Rightarrow> interval list" where
  "records 0 hdr p start = []"
| "records (Suc n) hdr p start =
     (if hType hdr = 1 then
        (if length p < 12 then []
         else (le32 p, le32 (drop 4 p), le32 (drop 8 p)) # records n hdr (drop 12 p) (le32 p))
      else if hType hdr = 2 then
        (if length p < 8 then []
         else (le32 p, le32 p + hSpan hdr, le32 (drop 4 p)) # records n hdr (drop 8 p) (le32 p))
      else if hType hdr = 3 then
        (if length p < 4 then []
         else (start + hStep hdr, start + hStep hdr + hSpan hdr, le32 p)
              # records n hdr (drop 4 p) (start + hStep hdr))
      else [])"

definition block_records :: "bwDataHeader \<Rightarrow> u8 list \<Rightarrow> interval list" where
  "block_records hdr uncompressed =
     records (unat (hNItems hdr)) hdr (drop 24 uncompressed) (hStart hdr)"

text \<open>The interval filter of the decoder, as the format description states it.\<close>

definition overlaps_query :: "u32 \<Rightarrow> u32 \<Rightarrow> interval \<Rightarrow> bool" where
  "overlaps_query ostart oend r = (fst (snd r) > ostart \<and> fst r < oend)"


section \<open>The resource: a local file or a remote URL\<close>

datatype bigWigFileType = BWG_FILE | BWG_HTTP | BWG_HTTPS | BWG_FTP

datatype ioerr =
    EOF                  \<comment> \<open>\<open>io.EOF\<close>\<close>
  | TransportError       \<comment> \<open>\<open>http.NewRequest\<close>, \<open>client.Do\<close> or reading the body failed\<close>
  | ClientNotInitialized
  | SeekEndNotSupported
  | InvalidWhence
  | InvalidArgument      \<comment> \<open>\<open>os.File.Seek\<close> to a negative offset\<close>

text \<open>
  \<open>URL\<close>. For a local file \<open>rs\<close> is the \<open>os.File\<close>: its bytes \<open>content\<close> and the offset
  \<open>file_off\<close> the operating system keeps. For a remote file \<open>client\<close> stands for the HTTP
  client together with the server behind \<open>url\<close>: \<open>client first last\<close> is the body of the
  response to \<open>GET\<close> with \<open>Range: bytes=first-last\<close> (the code reads the body whatever the
  status), \<open>None\<close> a transport error; \<open>buf\<close> is the unread part of the \<open>bytes.Buffer\<close>.
  \<open>FilePos\<close> is an \<open>int64\<close>; no offset of a file comes near its range.
\<close>

record URL =
  uType :: bigWigFileType
  content :: "u8 list"
  file_off :: int
  client :: "(int \<Rightarrow> int \<Rightarrow> u8 list option) option"
  buf :: "u8 list"
  FilePos :: int

definition fillBuffer :: "URL \<Rightarrow> ioerr option \<times> URL" where
  "fillBuffer u =
     (case client u of
        None \<Rightarrow> (Some ClientNotInitialized, u)
      | Some get \<Rightarrow>
          (case get (FilePos u) (FilePos u + 65535) of
             None \<Rightarrow> (Some TransportError, u)
           | Some body \<Rightarrow> (None, u\<lparr> FilePos := FilePos u + int (length body), buf := body \<rparr>)))"

text \<open>
  \<open>bytes.Buffer.Read\<close> into a slice of \<open>n\<close> bytes: the bytes delivered and the error
  (\<open>io.EOF\<close> when the buffer is empty and \<open>n > 0\<close>).
\<close>

definition buf_Read :: "URL \<Rightarrow> nat \<Rightarrow> (u8 list \<times> ioerr option) \<times> URL" where
  "buf_Read u n =
     (if buf u = [] then (([], if n = 0 then None else Some EOF), u)
      else ((take n (buf u), None), u\<lparr> buf := drop n (buf u) \<rparr>))"

text \<open>
  \<open>URL.Read(p)\<close> with \<open>len(p) = n\<close>: the bytes written to the front of \<open>p\<close>, the error,
  and the resource afterwards. \<open>os.File.Read\<close> on a regular file delivers the bytes from
  the offset on, as many as there are up to \<open>n\<close>, and \<open>io.EOF\<close> when there is none.
\<close>

definition Read :: "URL \<Rightarrow> nat \<Rightarrow> (u8 list \<times> ioerr option) \<times> URL" where
  "Read u n =
     (if uType u = BWG_FILE then
        (let got = take n (drop (nat (file_off u)) (content u)) in
         if got = [] \<and> n > 0 then (([], Some EOF), u)
         else ((got, None), u\<lparr> file_off := file_off u + int (length got) \<rparr>))
      else if length (buf u) = 0 then
        (case fillBuffer u of
           (Some e, u') \<Rightarrow> (([], Some e), u')
         | (None, u') \<Rightarrow> buf_Read u' n)
      else buf_Read u n)"

text \<open>\<open>URL.Seek(offset, whence)\<close>; \<open>io.SeekStart = 0\<close>, \<open>io.SeekCurrent = 1\<close>, \<open>io.SeekEnd = 2\<close>.\<close>

definition Seek :: "URL \<Rightarrow> int \<Rightarrow> int \<Rightarrow> (ioerr + int) \<times> URL" where
  "Seek u offset whence =
     (if uType u = BWG_FILE then
        (if whence \<noteq> 0 \<and> whence \<noteq> 1 \<and> whence \<noteq> 2 then (Inl InvalidWhence, u)
         else let pos = (if whence = 0 then offset
                         else if whence = 1 then file_off u + offset
                         else int (length (content u)) + offset)
              in if pos < 0 then (Inl InvalidArgument, u)
                 else (Inr pos, u\<lparr> file_off := pos \<rparr>))
      else if whence = 0 then (Inr offset, u\<lparr> FilePos := offset, buf := [] \<rparr>)
      else if whence = 1 then
        (Inr (FilePos u + offset), u\<lparr> FilePos := FilePos u + offset, buf := [] \<rparr>)
      else if whence = 2 then (Inl SeekEndNotSupported, u)
      else (Inl InvalidWhence, u))"

text \<open>\<open>bwTell\<close>: \<open>pos, _ := fp.URL.Seek(0, io.SeekCurrent)\<close>.\<close>

definition tell :: "URL \<Rightarrow> int \<times> URL" where
  "tell u = (case Seek u 0 1 of (Inl e, u') \<Rightarrow> (0, u') | (Inr pos, u') \<Rightarrow> (pos, u'))"

text \<open>\<open>seek(Start, tell())\<close>: \<open>bwSetPos(fp, bwTell(fp))\<close>.\<close>

definition seek_to_tell :: "URL \<Rightarrow> URL" where
  "seek_to_tell u = (case tell u of (pos, u') \<Rightarrow> snd (Seek u' pos 0))"


section \<open>Floating-point arithmetic\<close>

text \<open>
  The values of \<open>float64\<close> and \<open>float32\<close>: a finite value \<open>FFin s m e\<close> is
  \<open>(-1)^s * m * 2^e\<close> with \<open>m >= 0\<close>; the infinities; one NaN. The operations round to
  nearest, ties to even (IEEE 754, which the Go specification prescribes), each operation
  on its own: the arithmetic of \<open>amd64\<close>, where the compiler fuses no multiplication with
  an addition.
\<close>

datatype fp = FFin bool int int | FInf bool | FNaN

function bitlen :: "int \<Rightarrow> int" where
  "bitlen n = (if n \<le> 0 then 0 else 1 + bitlen (n div 2))"
  by pat_completeness auto
termination
  by (relation "measure nat") auto

declare bitlen.simps [simp del]

function pow2 :: "int \<Rightarrow> int" where
  "pow2 e = (if e \<le> 0 then 1 else 2 * pow2 (e - 1))"
  by pat_completeness auto
termination
  by (relation "measure nat") auto

declare pow2.simps [simp del]

text \<open>
  \<open>round_fp p emin emaxp s num den\<close>: the positive rational \<open>num / den\<close> with sign \<open>s\<close>,
  rounded to \<open>p\<close> significant bits with the exponent of the last bit at least \<open>emin\<close>
  (below that the value is subnormal), and to infinity from \<open>2^emaxp\<close> on.
\<close>

definition round_fp :: "int \<Rightarrow> int \<Rightarrow> int \<Rightarrow> bool \<Rightarrow> int \<Rightarrow> int \<Rightarrow> fp" where
  "round_fp p emin emaxp s num den =
     (if num = 0 then FFin s 0 0
      else
        let b = bitlen num - bitlen den;
            big = (if b \<ge> 0 then num \<ge> den * pow2 b else num * pow2 (- b) \<ge> den);
            e = max emin (if big then b + 1 - p else b - p);
            n = (if e \<ge> 0 then num else num * pow2 (- e));
            d = (if e \<ge> 0 then den * pow2 e else den);
            m0 = n div d;
            r = n mod d;
            m = (if 2 * r > d \<or> (2 * r = d \<and> odd m0) then m0 + 1 else m0)
        in if bitlen m + e > emaxp then FInf s else FFin s m e)"

definition round64 :: "bool \<Rightarrow> int \<Rightarrow> int \<Rightarrow> fp" where
  "round64 s num den = round_fp 53 (- 1074) 1024 s num den"

definition round32 :: "bool \<Rightarrow> int \<Rightarrow> int \<Rightarrow> fp" where
  "round32 s num den = round_fp 24 (- 149) 128 s num den"

text \<open>\<open>float64(i)\<close> for an integer \<open>i\<close>, and \<open>float64(w)\<close> for a \<open>uint32\<close>.\<close>

definition f64_of_int :: "int \<Rightarrow> fp" where
  "f64_of_int i = round64 (i < 0) \<bar>i\<bar> 1"

definition f64_of_u32 :: "u32 \<Rightarrow> fp" where
  "f64_of_u32 w = f64_of_int (uint w)"

fun f64_mul :: "fp \<Rightarrow> fp \<Rightarrow> fp" where
  "f64_mul FNaN y = FNaN"
| "f64_mul x FNaN = FNaN"
| "f64_mul (FInf s) (FInf t) = FInf (s \<noteq> t)"
| "f64_mul (FInf s) (FFin t n f) = (if n = 0 then FNaN else FInf (s \<noteq> t))"
| "f64_mul (FFin s m e) (FInf t) = (if m = 0 then FNaN else FInf (s \<noteq> t))"
| "f64_mul (FFin s m e) (FFin t n f) =
     (if e + f \<ge> 0 then round64 (s \<noteq> t) (m * n * pow2 (e + f)) 1
      else round64 (s \<noteq> t) (m * n) (pow2 (- (e + f))))"

fun f64_div :: "fp \<Rightarrow> fp \<Rightarrow> fp" where
  "f64_div FNaN y = FNaN"
| "f64_div x FNaN = FNaN"
| "f64_div (FInf s) (FInf t) = FNaN"
| "f64_div (FInf s) (FFin t n f) = FInf (s \<noteq> t)"
| "f64_div (FFin s m e) (FInf t) = FFin (s \<noteq> t) 0 0"
| "f64_div (FFin s m e) (FFin t n f) =
     (if n = 0 then (if m = 0 then FNaN else FInf (s \<noteq> t))
      else if e - f \<ge> 0 then round64 (s \<noteq> t) (m * pow2 (e - f)) n
      else round64 (s \<noteq> t) m (n * pow2 (f - e)))"

fun f64_add :: "fp \<Rightarrow> fp \<Rightarrow> fp" where
  "f64_add FNaN y = FNaN"
| "f64_add x FNaN = FNaN"
| "f64_add (FInf s) (FInf t) = (if s = t then FInf s else FNaN)"
| "f64_add (FInf s) (FFin t n f) = FInf s"
| "f64_add (FFin s m e) (FInf t) = FInf t"
| "f64_add (FFin s m e) (FFin t n f) =
     (let g = min e f;
          a = (if s then - m else m) * pow2 (e - g);
          b = (if t then - n else n) * pow2 (f - g);
          c = a + b
      in if c = 0 then FFin (s \<and> t) 0 0
         else if g \<ge> 0 then round64 (c < 0) (\<bar>c\<bar> * pow2 g) 1
         else round64 (c < 0) \<bar>c\<bar> (pow2 (- g)))"

fun f64_abs :: "fp \<Rightarrow> fp" where
  "f64_abs (FFin s m e) = FFin False m e"
| "f64_abs (FInf s) = FInf False"
| "f64_abs FNaN = FNaN"

text \<open>
  \<open>uint32(x)\<close> for a \<open>float64\<close>: the fraction is discarded. Where the integer does not
  fit, Go leaves the result to the implementation; \<open>amd64\<close> converts to \<open>int64\<close>
  (\<open>0x8000000000000000\<close> when that fails) and keeps the low 32 bits.
\<close>

fun f64_to_u32 :: "fp \<Rightarrow> u32" where
  "f64_to_u32 (FFin s m e) =
     (let t = (if e \<ge> 0 then m * pow2 e else m div pow2 (- e))
      in if t \<ge> 2 ^ 63 then 0 else word_of_int (if s then - t else t))"
| "f64_to_u32 (FInf s) = 0"
| "f64_to_u32 FNaN = 0"

text \<open>\<open>math.Float32frombits\<close>, read as a value, and \<open>float64(x)\<close> of it, which is exact.\<close>

definition f32_decode :: "f32 \<Rightarrow> fp" where
  "f32_decode w =
     (let s = (w AND 0x80000000 \<noteq> 0);
          ex = uint (drop_bit 23 w AND 0xFF);
          fr = uint (w AND 0x7FFFFF)
      in if ex = 255 then (if fr = 0 then FInf s else FNaN)
         else if ex = 0 then FFin s fr (- 149)
         else FFin s (fr + 2 ^ 23) (ex - 150))"

definition f64_of_f32 :: "f32 \<Rightarrow> fp" where
  "f64_of_f32 w = f32_decode w"

text \<open>The bit pattern of a value that \<open>round32\<close> has produced.\<close>

fun f32_encode :: "fp \<Rightarrow> f32" where
  "f32_encode FNaN = 0x7FC00000"
| "f32_encode (FInf s) = (if s then 0xFF800000 else 0x7F800000)"
| "f32_encode (FFin s m e) =
     (let sign = (if s then 0x80000000 else 0 :: u32);
          bl = bitlen m
      in if m = 0 then sign
         else if bl + e - 1 \<ge> - 126 then
           (let mant = (if bl \<le> 24 then m * pow2 (24 - bl) else m div pow2 (bl - 24))
            in sign OR push_bit 23 (word_of_int (bl + e - 1 + 127)) OR word_of_int (mant - 2 ^ 23))
         else sign OR word_of_int (m * pow2 (e + 149)))"

text \<open>\<open>float32(x)\<close> for a \<open>float64\<close>.\<close>

fun f32_of_f64 :: "fp \<Rightarrow> f32" where
  "f32_of_f64 (FFin s m e) =
     f32_encode (if e \<ge> 0 then round32 s (m * pow2 e) 1 else round32 s m (pow2 (- e)))"
| "f32_of_f64 x = f32_encode x"

text \<open>\<open>x < y\<close> on values; every comparison with NaN is false, and \<open>-0 = +0\<close>.\<close>

fun fp_less :: "fp \<Rightarrow> fp \<Rightarrow> bool" where
  "fp_less FNaN y = False"
| "fp_less x FNaN = False"
| "fp_less (FInf s) (FInf t) = (s \<and> \<not> t)"
| "fp_less (FInf s) (FFin t n f) = s"
| "fp_less (FFin s m e) (FInf t) = (\<not> t)"
| "fp_less (FFin s m e) (FFin t n f) =
     (let g = min e f
      in (if s then - m else m) * pow2 (e - g) < (if t then - n else n) * pow2 (f - g))"

definition f32_less :: "f32 \<Rightarrow> f32 \<Rightarrow> bool" where
  "f32_less x y = fp_less (f32_decode x) (f32_decode y)"

text \<open>\<open>float32(math.Inf(1))\<close> and \<open>float32(math.Inf(-1))\<close>.\<close>

definition f32_pos_inf :: f32 where
  "f32_pos_inf = 0x7F800000"

definition f32_neg_inf :: f32 where
  "f32_neg_inf = 0xFF800000"

section \<open>The zoom engine\<close>

record bwSummary =
  ChromId :: u32
  sStart :: u32
  sEnd :: u32
  ValidCount :: u32
  MinVal :: f32
  MaxVal :: f32
  SumData :: f32
  SumSquares :: f32

fun best_loop :: "u32 list \<Rightarrow> u32 \<Rightarrow> int \<Rightarrow> int \<Rightarrow> u32 \<Rightarrow> int" where
  "best_loop [] desiredReduction i bestIdx closestDiff = bestIdx"
| "best_loop (level # levels) desiredReduction i bestIdx closestDiff =
     (if desiredReduction \<ge> level then
        (let diff = desiredReduction - level in
         if diff < closestDiff then best_loop levels desiredReduction (i + 1) i diff
         else best_loop levels desiredReduction (i + 1) bestIdx closestDiff)
      else best_loop levels desiredReduction (i + 1) bestIdx closestDiff)"

definition bwSelectBestZoomLevel :: "bwZoomHdr option \<Rightarrow> u32 \<Rightarrow> int" where
  "bwSelectBestZoomLevel zhdr desiredReduction =
     (case zhdr of
        None \<Rightarrow> - 1
      | Some z \<Rightarrow>
          if desiredReduction \<le> 1 \<or> length (Level z) = 0 then - 1
          else best_loop (Level z) desiredReduction 0 (- 1) 0xFFFFFFFF)"

fun closest_loop :: "u32 list \<Rightarrow> u32 \<Rightarrow> int \<Rightarrow> int \<Rightarrow> u32 \<Rightarrow> int" where
  "closest_loop [] desiredReduction i bestIdx closestDiff = bestIdx"
| "closest_loop (level # levels) desiredReduction i bestIdx closestDiff =
     (let diff = f64_to_u32 (f64_abs (f64_of_int (uint desiredReduction - uint level))) in
      if diff < closestDiff then closest_loop levels desiredReduction (i + 1) i diff
      else closest_loop levels desiredReduction (i + 1) bestIdx closestDiff)"

definition bwGetBestZoomClosest :: "bwZoomHdr option \<Rightarrow> u32 \<Rightarrow> int" where
  "bwGetBestZoomClosest zhdr desiredReduction =
     (case zhdr of
        None \<Rightarrow> - 1
      | Some z \<Rightarrow>
          if length (Level z) = 0 then - 1
          else closest_loop (Level z) desiredReduction 0 (- 1) 0xFFFFFFFF)"

definition bwReadZoomIndex :: "bigWigFile \<Rightarrow> u64 \<Rightarrow> err + bwRTree" where
  "bwReadZoomIndex fp indexOffset =
     (if indexOffset = 0 then Inl InvalidIndexOffset
      else case readRTreeIdx fp indexOffset of
             Inl e \<Rightarrow> Inl e
           | Inr idx \<Rightarrow>
               (case bwGetRTreeNode fp (RootOffset idx) of
                  Inl e \<Rightarrow> Inl e
                | Inr root \<Rightarrow> Inr (idx\<lparr> Root := Some root \<rparr>)))"

text \<open>The summary record at the front of \<open>data\<close> (32 bytes).\<close>

definition summary_at :: "u8 list \<Rightarrow> bwSummary" where
  "summary_at data =
     \<lparr> ChromId = le32 data, sStart = le32 (drop 4 data), sEnd = le32 (drop 8 data),
       ValidCount = le32 (drop 12 data), MinVal = le32 (drop 16 data),
       MaxVal = le32 (drop 20 data), SumData = le32 (drop 24 data),
       SumSquares = le32 (drop 28 data) \<rparr>"

text \<open>The inner loop of \<open>bwGetSummariesInRegion\<close> over the records of one block.\<close>

definition parse_summaries :: "u8 list \<Rightarrow> u32 \<Rightarrow> u32 \<Rightarrow> u32 \<Rightarrow> bwSummary list" where
  "parse_summaries data tid start end =
     filter (\<lambda>smry. ChromId smry = tid \<and> sStart smry < end \<and> sEnd smry > start)
       (map (\<lambda>j. summary_at (drop (j * 32) data)) [0..<length data div 32])"

fun summaries_loop ::
  "bigWigFile \<Rightarrow> bwOverlapBlock \<Rightarrow> u32 \<Rightarrow> u32 \<Rightarrow> u32 \<Rightarrow> bwSummary list \<Rightarrow> err + bwSummary list" where
  "summaries_loop fp [] tid start end summaries = Inr summaries"
| "summaries_loop fp (blk # blks) tid start end summaries =
     (case fetch_block fp blk of
        Inl e \<Rightarrow> Inl e
      | Inr data \<Rightarrow>
          summaries_loop fp blks tid start end (summaries @ parse_summaries data tid start end))"

definition bwGetSummariesInRegion ::
  "bigWigFile \<Rightarrow> int \<Rightarrow> string \<Rightarrow> u32 \<Rightarrow> u32 \<Rightarrow> err + bwSummary list" where
  "bwGetSummariesInRegion fp zoomIdx chrom start end =
     (if length (ZoomHdrs fp) = 0 then Inl NoZoomHeaders
      else case hd (ZoomHdrs fp) of
        None \<Rightarrow> Inl NilDereference
      | Some zhdr \<Rightarrow>
          if zoomIdx < 0 \<or> zoomIdx \<ge> int (length (Level zhdr)) then Inl InvalidZoomIndex
          else let tid = bwGetTid fp chrom in
            if tid = TID_NONE then Inl NoSuchChromosome
            else if nat zoomIdx \<ge> length (ZIdx zhdr) \<or> nat zoomIdx \<ge> length (IndexOffset zhdr)
            then Inl IndexOutOfRange
            else case (case ZIdx zhdr ! nat zoomIdx of
                         None \<Rightarrow> bwReadZoomIndex fp (IndexOffset zhdr ! nat zoomIdx)
                       | Some t \<Rightarrow> Inr t) of
                   Inl e \<Rightarrow> Inl e
                 | Inr zoomTree \<Rightarrow>
                     (case Root zoomTree of
                        None \<Rightarrow> Inl NilDereference
                      | Some root \<Rightarrow>
                          (case walkRTreeNodes root tid start end of
                             Inl e \<Rightarrow> Inr []
                           | Inr blocks \<Rightarrow>
                               if length blocks = 0 then Inr []
                               else summaries_loop fp blocks tid start end [])))"

definition max32 :: "u32 \<Rightarrow> u32 \<Rightarrow> u32" where
  "max32 a b = (if a > b then a else b)"

definition min32 :: "u32 \<Rightarrow> u32 \<Rightarrow> u32" where
  "min32 a b = (if a < b then a else b)"

text \<open>
  The running values of one bin: \<open>sumData\<close>, \<open>validCount\<close> (\<open>count\<close> in
  \<open>bwGetValuesFromRaw\<close>), \<open>minVal\<close>, \<open>maxVal\<close>, as the bin loop initialises them.
\<close>

record bin_acc =
  sumData :: fp
  validCount :: u32
  minVal :: f32
  maxVal :: f32

definition bin_init :: bin_acc where
  "bin_init = \<lparr> sumData = FFin False 0 0, validCount = 0,
                minVal = f32_pos_inf, maxVal = f32_neg_inf \<rparr>"

text \<open>One summary record against one bin, in \<open>bwGetValuesFromZoom\<close>.\<close>

definition zoom_accumulate :: "u32 \<Rightarrow> u32 \<Rightarrow> bwSummary \<Rightarrow> bin_acc \<Rightarrow> bin_acc" where
  "zoom_accumulate binStart binEnd smry a =
     (if sEnd smry \<le> binStart \<or> sStart smry \<ge> binEnd then a
      else let overlap = min32 (sEnd smry) binEnd - max32 (sStart smry) binStart in
        if overlap = 0 then a
        else let sumWidth = sEnd smry - sStart smry;
                 overlapFactor = f64_div (f64_of_u32 overlap) (f64_of_u32 sumWidth)
             in \<lparr> sumData = f64_add (sumData a) (f64_mul (f64_of_f32 (SumData smry)) overlapFactor),
                  validCount = validCount a
                     + f64_to_u32 (f64_mul (f64_of_u32 (ValidCount smry)) overlapFactor),
                  minVal = (if f32_less (MinVal smry) (minVal a) then MinVal smry else minVal a),
                  maxVal = (if f32_less (maxVal a) (MaxVal smry) then MaxVal smry else maxVal a) \<rparr>)"


text \<open>
  The \<open>switch summaryType\<close> that both functions run on a bin with a positive count
  (the two copies in the source are the same text).
\<close>

definition summary_value :: "string \<Rightarrow> int \<Rightarrow> u32 \<Rightarrow> u32 \<Rightarrow> bin_acc \<Rightarrow> f32" where
  "summary_value summaryType numBins start end a =
     (if summaryType = ''mean'' \<or> summaryType = ''average'' then
        f32_of_f64 (f64_div (sumData a) (f64_of_u32 (validCount a)))
      else if summaryType = ''max'' \<or> summaryType = ''maximum'' then maxVal a
      else if summaryType = ''min'' \<or> summaryType = ''minimum'' then minVal a
      else if summaryType = ''coverage'' then
        f32_of_f64 (f64_mul (f64_div (f64_of_int numBins) (f64_of_u32 (end - start)))
                            (f64_of_u32 (validCount a)))
      else if summaryType = ''sum'' then f32_of_f64 (sumData a)
      else f32_of_f64 (f64_div (sumData a) (f64_of_u32 (validCount a))))"

text \<open>\<open>binStart\<close> and \<open>binEnd\<close> of bin \<open>i\<close>.\<close>

definition binSize :: "u32 \<Rightarrow> u32 \<Rightarrow> int \<Rightarrow> fp" where
  "binSize start end numBins = f64_div (f64_of_u32 (end - start)) (f64_of_int numBins)"

definition binStart :: "u32 \<Rightarrow> u32 \<Rightarrow> int \<Rightarrow> int \<Rightarrow> u32" where
  "binStart start end numBins i
     = start + f64_to_u32 (f64_mul (f64_of_int i) (binSize start end numBins))"

definition binEnd :: "u32 \<Rightarrow> u32 \<Rightarrow> int \<Rightarrow> int \<Rightarrow> u32" where
  "binEnd start end numBins i
     = start + f64_to_u32 (f64_mul (f64_of_int (i + 1)) (binSize start end numBins))"

text \<open>What the summary loop of bin \<open>i\<close> accumulates, and the value the bin gets.\<close>

definition zoom_bin :: "bwSummary list \<Rightarrow> u32 \<Rightarrow> u32 \<Rightarrow> int \<Rightarrow> int \<Rightarrow> bin_acc" where
  "zoom_bin summaries start end numBins i =
     fold (zoom_accumulate (binStart start end numBins i) (binEnd start end numBins i))
          summaries bin_init"

definition zoom_bin_value :: "string \<Rightarrow> bwSummary list \<Rightarrow> u32 \<Rightarrow> u32 \<Rightarrow> int \<Rightarrow> int \<Rightarrow> f32" where
  "zoom_bin_value summaryType summaries start end numBins i =
     (let a = zoom_bin summaries start end numBins i in
      if validCount a > 0 then summary_value summaryType numBins start end a else f32_NaN)"

definition bwGetValuesFromZoom ::
  "bigWigFile \<Rightarrow> int \<Rightarrow> string \<Rightarrow> u32 \<Rightarrow> u32 \<Rightarrow> int \<Rightarrow> string \<Rightarrow> err + f32 list" where
  "bwGetValuesFromZoom fp zoomIdx chrom start end numBins summaryType =
     (case bwGetSummariesInRegion fp zoomIdx chrom start end of
        Inl e \<Rightarrow> Inl e
      | Inr summaries \<Rightarrow>
          if numBins < 0 then Inl NegativeLength
          else if length summaries = 0 then Inr (replicate (nat numBins) f32_NaN)
          else Inr (map (\<lambda>i. zoom_bin_value summaryType summaries start end numBins (int i))
                        [0..<nat numBins]))"






text \<open>
  \<open>GetZoomValues\<close>. \<open>Inl\<close> is the nil it returns after printing the reason. The last
  step replaces every NaN by 0; the goroutines that do it write disjoint chunks that
  together cover the slice, and the function waits for all of them.
\<close>

definition GetZoomValues ::
  "bigWigFile \<Rightarrow> string \<Rightarrow> int \<Rightarrow> int \<Rightarrow> int \<Rightarrow> bool \<Rightarrow> int \<Rightarrow> err + f32 list" where
  "GetZoomValues fp chrom start end numBins useClosest desiredReduction =
     (if length (ZoomHdrs fp) = 0 then Inl NoZoomHeaders
      else let zhdr = hd (ZoomHdrs fp);
               zoomIdx = (if useClosest
                          then bwGetBestZoomClosest zhdr (word_of_int desiredReduction)
                          else bwSelectBestZoomLevel zhdr (word_of_int desiredReduction))
           in if zoomIdx < 0 then Inl NoSuitableZoomLevel
              else case bwGetValuesFromZoom fp zoomIdx chrom (word_of_int start)
                          (word_of_int end) numBins ''mean'' of
                     Inl e \<Rightarrow> Inl e
                   | Inr values \<Rightarrow> Inr (map (\<lambda>v. if f32_isNaN v then 0 else v) values))"

section \<open>A small file, used to run the definitions\<close>

text \<open>
  Three uncompressed data blocks. The first is a bedGraph block of chromosome 0 with the
  records (100, 200, 1.0), (200, 300, 2.0), (400, 500, 3.0); the second a bedGraph block
  of chromosome 1 with the records (5, 15, 9.0) and (10, 20, 4.0), which overlap; the third a fixedStep block of
  chromosome 0 with \<open>start = 1000\<close>, \<open>step = 10\<close>, \<open>span = 5\<close> and the values 5.0, 6.0,
  7.0, 8.0.
\<close>

definition ex_bedgraph_block :: "u8 list" where
  "ex_bedgraph_block =
     [0, 0, 0, 0,  100, 0, 0, 0,  244, 1, 0, 0,  0, 0, 0, 0,  0, 0, 0, 0,  1, 0, 3, 0,
      100, 0, 0, 0,  200, 0, 0, 0,  0, 0, 128, 63,
      200, 0, 0, 0,  44, 1, 0, 0,   0, 0, 0, 64,
      144, 1, 0, 0,  244, 1, 0, 0,  0, 0, 64, 64]"

definition ex_chr2_block :: "u8 list" where
  "ex_chr2_block =
     [1, 0, 0, 0,  5, 0, 0, 0,  20, 0, 0, 0,  0, 0, 0, 0,  0, 0, 0, 0,  1, 0, 2, 0,
      5, 0, 0, 0,  15, 0, 0, 0,  0, 0, 16, 65,
      10, 0, 0, 0,  20, 0, 0, 0,  0, 0, 128, 64]"

definition ex_fixedstep_block :: "u8 list" where
  "ex_fixedstep_block =
     [0, 0, 0, 0,  232, 3, 0, 0,  21, 4, 0, 0,  10, 0, 0, 0,  5, 0, 0, 0,  3, 0, 4, 0,
      0, 0, 160, 64,  0, 0, 192, 64,  0, 0, 224, 64,  0, 0, 0, 65]"

text \<open>
  The index: one leaf with a child per block. The second child spans chromosomes 0 and
  1, so a query on chromosome 0 reaches the block of chromosome 1.
\<close>

definition ex_root :: bwRTreeNode where
  "ex_root = RTreeNode 1
     [RChild 0 100 0 500 1000 60 None,
      RChild 0 900 1 20 2000 48 None,
      RChild 0 1010 0 1045 3000 40 None]"

definition ex_file :: bigWigFile where
  "ex_file = \<lparr> bufsize = 0, indexoffset = 500, ZoomHdrs = [],
               Cl = \<lparr> NKeys = 2, Chrom = [''chr1'', ''chr2''], Len = [100000, 50000] \<rparr>,
               Idx = Some \<lparr> RootOffset = 548, Root = Some ex_root \<rparr>,
               Type = 0,
               disk_index = (\<lambda>off. None),
               disk_node = (\<lambda>off. None),
               disk_read = (\<lambda>off size.
                  if off = 1000 \<and> size = 60 then Some ex_bedgraph_block
                  else if off = 2000 \<and> size = 48 then Some ex_chr2_block
                  else if off = 3000 \<and> size = 40 then Some ex_fixedstep_block
                  else None),
               inflate = (\<lambda>b. None) \<rparr>"

text \<open>
  A leaf whose first child spans chromosomes 0 and 1 from base 900 on, and whose second
  child lies on chromosome 0 at 100 to 200; and the same two children in the other order.
\<close>

definition ex_leaf_unsorted :: bwRTreeNode where
  "ex_leaf_unsorted = RTreeNode 1
     [RChild 0 900 1 10 1000 50 None, RChild 0 100 0 200 2000 60 None]"

definition ex_leaf_sorted :: bwRTreeNode where
  "ex_leaf_sorted = RTreeNode 1
     [RChild 0 100 0 200 2000 60 None, RChild 0 900 1 10 1000 50 None]"

text \<open>A branch over the same two boxes, each child a leaf with one block.\<close>

definition ex_branch_unsorted :: bwRTreeNode where
  "ex_branch_unsorted = RTreeNode 0
     [RChild 0 900 1 10 7000 0 (Some (RTreeNode 1 [RChild 0 900 1 10 1000 50 None])),
      RChild 0 100 0 200 8000 0 (Some (RTreeNode 1 [RChild 0 100 0 200 2000 60 None]))]"


text \<open>What the queries on chromosome \<open>chr1\<close>, 0 to 10000, of this file return.\<close>

definition ex_intervals :: bwOverlappingIntervals where
  "ex_intervals = [(100, 200, 0x3F800000), (200, 300, 0x40000000), (400, 500, 0x40400000),
                   (1010, 1015, 0x40A00000), (1020, 1025, 0x40C00000),
                   (1030, 1035, 0x40E00000), (1040, 1045, 0x41000000)]"

text \<open>
  The small file with one zoom level of reduction 100, whose only block holds the
  summaries (0, 100, count 100, min 1, max 1, sum 100) and
  (100, 200, count 100, min 2, max 2, sum 200) of chromosome 0.
\<close>

definition ex_zoom_block :: "u8 list" where
  "ex_zoom_block =
     [0, 0, 0, 0,  0, 0, 0, 0,    100, 0, 0, 0,  100, 0, 0, 0,
      0, 0, 128, 63,  0, 0, 128, 63,  0, 0, 200, 66,  0, 0, 200, 66,
      0, 0, 0, 0,  100, 0, 0, 0,  200, 0, 0, 0,  100, 0, 0, 0,
      0, 0, 0, 64,  0, 0, 0, 64,  0, 0, 72, 67,  0, 0, 200, 67]"

definition ex_zoom_file :: bigWigFile where
  "ex_zoom_file = ex_file
     \<lparr> ZoomHdrs := [Some \<lparr> Level = [100], IndexOffset = [4000], ZIdx = [None] \<rparr>],
       disk_index := (\<lambda>off. if off = 4000 then Some \<lparr> RootOffset = 4048, Root = None \<rparr>
                             else None),
       disk_node := (\<lambda>off. if off = 4048
                            then Some (RTreeNode 1 [RChild 0 0 0 200 5000 64 None])
                            else None),
       disk_read := (\<lambda>off size.
          if off = 5000 \<and> size = 64 then Some ex_zoom_block else disk_read ex_file off size) \<rparr>"

definition ex_summaries :: "bwSummary list" where
  "ex_summaries =
     [\<lparr> ChromId = 0, sStart = 0, sEnd = 100, ValidCount = 100, MinVal = 0x3F800000,
        MaxVal = 0x3F800000, SumData = 0x42C80000, SumSquares = 0x42C80000 \<rparr>,
      \<lparr> ChromId = 0, sStart = 100, sEnd = 200, ValidCount = 100, MinVal = 0x40000000,
        MaxVal = 0x40000000, SumData = 0x43480000, SumSquares = 0x43C80000 \<rparr>]"

text \<open>
  \<open>Open\<close> of an \<open>http://\<close> name whose server holds the four bytes 10, 20, 30, 40 and
  honours \<open>Range\<close>, and of a local file with the same bytes.
\<close>

definition ex_remote :: URL where
  "ex_remote = \<lparr> uType = BWG_HTTP, content = [],  file_off = 0,
                 client = Some (\<lambda>first last.
                            Some (take (nat (last - first + 1)) (drop (nat first) [10, 20, 30, 40]))),
                 buf = [], FilePos = 0 \<rparr>"

definition ex_local :: URL where
  "ex_local = \<lparr> uType = BWG_FILE, content = [10, 20, 30, 40], file_off = 0,
                client = None, buf = [], FilePos = 0 \<rparr>"

section \<open>The block decoder: lemmas\<close>

text \<open>
  The decoder only ever appends to the output it is given, so a run on any output is
  the run on the empty output with the result appended.
\<close>

lemma items_loop_acc:
  "items_loop n hdr p start ostart oend out
   = (case items_loop n hdr p start ostart oend [] of Inl e \<Rightarrow> Inl e | Inr d \<Rightarrow> Inr (out @ d))"
proof (induction n arbitrary: p start out)
  case 0
  then show ?case by simp
next
  case (Suc n)
  show ?case
  proof (cases "read_item hdr p start")
    case (Inl e)
    then show ?thesis by simp
  next
    case (Inr t)
    obtain s' e v p' where t: "t = (s', e, v, p')" by (cases t) auto
    show ?thesis
    proof (cases "e \<le> ostart \<or> s' \<ge> oend")
      case True
      then show ?thesis using Inr t Suc.IH[of p' s' out] by simp
    next
      case False
      have a: "items_loop n hdr p' s' ostart oend (out @ [(s', e, v)])
            = (case items_loop n hdr p' s' ostart oend [] of Inl e \<Rightarrow> Inl e
               | Inr d \<Rightarrow> Inr ((out @ [(s', e, v)]) @ d))"
        by (rule Suc.IH)
      have b: "items_loop n hdr p' s' ostart oend [(s', e, v)]
            = (case items_loop n hdr p' s' ostart oend [] of Inl e \<Rightarrow> Inl e
               | Inr d \<Rightarrow> Inr ([(s', e, v)] @ d))"
        by (rule Suc.IH)
      have "items_loop n hdr p' s' ostart oend (out @ [(s', e, v)])
            = (case items_loop n hdr p' s' ostart oend [(s', e, v)] of Inl e \<Rightarrow> Inl e
               | Inr d \<Rightarrow> Inr (out @ d))"
        unfolding a b by (cases "items_loop n hdr p' s' ostart oend []") simp_all
      then show ?thesis using Inr t False by (simp add: pushIntervals_def)
    qed
  qed
qed

lemma decode_block_acc:
  "decode_block u tid ostart oend out
   = (case decode_block u tid ostart oend [] of Inl e \<Rightarrow> Inl e | Inr d \<Rightarrow> Inr (out @ d))"
proof (cases "length u < 24")
  case True
  then show ?thesis by (simp add: decode_block_def)
next
  case False
  then obtain hdr where h: "bwFillDataHdr u = Inr hdr" by (simp add: bwFillDataHdr_def)
  show ?thesis
  proof (cases "hTid hdr = tid")
    case True
    have "items_loop (unat (hNItems hdr)) hdr (drop 24 u) (hStart hdr) ostart oend out
          = (case items_loop (unat (hNItems hdr)) hdr (drop 24 u) (hStart hdr) ostart oend [] of
               Inl e \<Rightarrow> Inl e | Inr d \<Rightarrow> Inr (out @ d))"
      by (rule items_loop_acc)
    then show ?thesis using True False h by (simp add: decode_block_def)
  next
    case False
    then show ?thesis using \<open>\<not> length u < 24\<close> h by (simp add: decode_block_def)
  qed
qed

lemma core_loop_acc:
  "core_loop fp blks tid ostart oend out
   = (case core_loop fp blks tid ostart oend [] of Inl e \<Rightarrow> Inl e | Inr d \<Rightarrow> Inr (out @ d))"
proof (induction blks arbitrary: out)
  case Nil
  then show ?case by simp
next
  case (Cons blk blks)
  show ?case
  proof (cases "fetch_block fp blk")
    case (Inl e)
    then show ?thesis by simp
  next
    case (Inr u)
    have da: "decode_block u tid ostart oend out
       = (case decode_block u tid ostart oend [] of Inl e \<Rightarrow> Inl e | Inr d \<Rightarrow> Inr (out @ d))"
      by (rule decode_block_acc)
    show ?thesis
    proof (cases "decode_block u tid ostart oend []")
      case (Inl e)
      then show ?thesis using Inr da by simp
    next
      case r: (Inr d)
      have a: "decode_block u tid ostart oend out = Inr (out @ d)"
        using r da by simp
      have b: "core_loop fp blks tid ostart oend (out @ d)
         = (case core_loop fp blks tid ostart oend [] of Inl e \<Rightarrow> Inl e | Inr d' \<Rightarrow> Inr ((out @ d) @ d'))"
        by (rule Cons.IH)
      have c: "core_loop fp blks tid ostart oend d
         = (case core_loop fp blks tid ostart oend [] of Inl e \<Rightarrow> Inl e | Inr d' \<Rightarrow> Inr (d @ d'))"
        by (rule Cons.IH)
      have "core_loop fp blks tid ostart oend (out @ d)
         = (case core_loop fp blks tid ostart oend d of Inl e \<Rightarrow> Inl e | Inr d' \<Rightarrow> Inr (out @ d'))"
        unfolding b c by (cases "core_loop fp blks tid ostart oend []") simp_all
      then show ?thesis using Inr r a by simp
    qed
  qed
qed

lemma core_loop_append:
  "core_loop fp (xs @ ys) tid ostart oend out
   = (case core_loop fp xs tid ostart oend out of
        Inl e \<Rightarrow> Inl e
      | Inr out' \<Rightarrow> core_loop fp ys tid ostart oend out')"
  by (induction xs arbitrary: out) (simp_all split: sum.splits)

lemma core_is_loop:
  "bwGetOverlappingIntervalsCore fp blks tid ostart oend = core_loop fp blks tid ostart oend []"
  by (cases blks) (simp_all add: bwGetOverlappingIntervalsCore_def)

lemma core_append:
  "bwGetOverlappingIntervalsCore fp (xs @ ys) tid ostart oend
   = (case bwGetOverlappingIntervalsCore fp xs tid ostart oend of
        Inl e \<Rightarrow> Inl e
      | Inr a \<Rightarrow> (case bwGetOverlappingIntervalsCore fp ys tid ostart oend of
                    Inl e \<Rightarrow> Inl e
                  | Inr b \<Rightarrow> Inr (a @ b)))"
proof (cases "core_loop fp xs tid ostart oend []")
  case (Inl e)
  then show ?thesis by (simp add: core_is_loop core_loop_append)
next
  case (Inr a)
  have "core_loop fp ys tid ostart oend a
        = (case core_loop fp ys tid ostart oend [] of Inl e \<Rightarrow> Inl e | Inr b \<Rightarrow> Inr (a @ b))"
    by (rule core_loop_acc)
  then show ?thesis using Inr by (simp add: core_is_loop core_loop_append)
qed

text \<open>
  Once the payload is too short for a record, every remaining iteration reads the
  pseudo-record with \<open>end = 0\<close>, which the filter drops (\<open>0 <= ostart\<close>).
\<close>

lemma items_loop_short:
  assumes "hType hdr = 1 \<and> length p < 12 \<or> hType hdr = 2 \<and> length p < 8 \<or> hType hdr = 3 \<and> length p < 4"
  shows "items_loop n hdr p start ostart oend out = Inr out"
  using assms by (induction n arbitrary: start) (auto simp: read_item_def)

lemma items_loop_step:
  assumes r: "read_item hdr p start = Inr (s', e, v, p')"
    and ih: "\<And>out. items_loop n hdr p' s' ostart oend out
              = Inr (out @ filter (overlaps_query ostart oend) rs)"
  shows "items_loop (Suc n) hdr p start ostart oend out
         = Inr (out @ filter (overlaps_query ostart oend) ((s', e, v) # rs))"
proof (cases "e \<le> ostart \<or> s' \<ge> oend")
  case True
  then have "\<not> overlaps_query ostart oend (s', e, v)"
    by (auto simp: overlaps_query_def)
  then show ?thesis using r True ih by simp
next
  case False
  then have "overlaps_query ostart oend (s', e, v)"
    by (auto simp: overlaps_query_def)
  then show ?thesis using r False ih by (simp add: pushIntervals_def)
qed

lemma items_loop_records:
  assumes "hType hdr = 1 \<or> hType hdr = 2 \<or> hType hdr = 3"
  shows "items_loop n hdr p start ostart oend out
         = Inr (out @ filter (overlaps_query ostart oend) (records n hdr p start))"
  using assms
proof (induction n arbitrary: p start out)
  case 0
  then show ?case by simp
next
  case (Suc n)
  note ih = Suc.IH[OF Suc.prems]
  consider (short) "hType hdr = 1 \<and> length p < 12 \<or> hType hdr = 2 \<and> length p < 8 \<or> hType hdr = 3 \<and> length p < 4"
    | (t1) "hType hdr = 1" "\<not> length p < 12"
    | (t2) "hType hdr = 2" "\<not> length p < 8"
    | (t3) "hType hdr = 3" "\<not> length p < 4"
    using Suc.prems by blast
  then show ?case
  proof cases
    case short
    then have "records (Suc n) hdr p start = []" by auto
    then show ?thesis using items_loop_short[OF short] by simp
  next
    case t1
    have r: "read_item hdr p start = Inr (le32 p, le32 (drop 4 p), le32 (drop 8 p), drop 12 p)"
      using t1 by (simp add: read_item_def)
    have rs: "records (Suc n) hdr p start
              = (le32 p, le32 (drop 4 p), le32 (drop 8 p)) # records n hdr (drop 12 p) (le32 p)"
      using t1 by simp
    show ?thesis unfolding rs by (rule items_loop_step[OF r ih])
  next
    case t2
    have r: "read_item hdr p start = Inr (le32 p, le32 p + hSpan hdr, le32 (drop 4 p), drop 8 p)"
      using t2 by (simp add: read_item_def)
    have rs: "records (Suc n) hdr p start
              = (le32 p, le32 p + hSpan hdr, le32 (drop 4 p)) # records n hdr (drop 8 p) (le32 p)"
      using t2 by simp
    show ?thesis unfolding rs by (rule items_loop_step[OF r ih])
  next
    case t3
    have r: "read_item hdr p start
             = Inr (start + hStep hdr, start + hStep hdr + hSpan hdr, le32 p, drop 4 p)"
      using t3 by (simp add: read_item_def)
    have rs: "records (Suc n) hdr p start
              = (start + hStep hdr, start + hStep hdr + hSpan hdr, le32 p)
                # records n hdr (drop 4 p) (start + hStep hdr)"
      using t3 by simp
    show ?thesis unfolding rs by (rule items_loop_step[OF r ih])
  qed
qed

lemma records_fixedStep:
  assumes "hType hdr = 3"
  shows "records n hdr p start
         = map (\<lambda>j. (start + (of_nat j + 1) * hStep hdr,
                       start + (of_nat j + 1) * hStep hdr + hSpan hdr,
                       le32 (drop (4 * j) p)))
               [0..<min n (length p div 4)]"
proof (induction n arbitrary: p start)
  case 0
  then show ?case by simp
next
  case (Suc n)
  show ?case
  proof (cases "length p < 4")
    case True
    then show ?thesis using assms by simp
  next
    case False
    then have m: "min (Suc n) (length p div 4) = Suc (min n (length (drop 4 p) div 4))"
      by (simp add: min_def) arith
    have w: "\<And>j. start + hStep hdr + (of_nat j + 1) * hStep hdr
                 = start + (of_nat (Suc j) + 1) * hStep hdr"
      by (simp add: algebra_simps)
    have d: "\<And>j. drop (4 * j) (drop 4 p) = drop (4 * Suc j) p"
      by (simp add: add.commute)
    have "records (Suc n) hdr p start
          = (start + hStep hdr, start + hStep hdr + hSpan hdr, le32 p)
            # records n hdr (drop 4 p) (start + hStep hdr)"
      using assms False by simp
    also have "\<dots> = map (\<lambda>j. (start + (of_nat j + 1) * hStep hdr,
                       start + (of_nat j + 1) * hStep hdr + hSpan hdr,
                       le32 (drop (4 * j) p)))
               [0..<Suc (min n (length (drop 4 p) div 4))]"
      unfolding Suc.IH map_upt_Suc w d by simp
    finally show ?thesis unfolding m .
  qed
qed

lemma decode_block_records:
  assumes "bwFillDataHdr uncompressed = Inr hdr" and "hTid hdr = tid"
    and "hType hdr = 1 \<or> hType hdr = 2 \<or> hType hdr = 3"
  shows "decode_block uncompressed tid ostart oend output
         = Inr (output @ filter (overlaps_query ostart oend) (block_records hdr uncompressed))"
proof -
  have len: "\<not> length uncompressed < 24"
    using assms(1) by (auto simp: bwFillDataHdr_def split: if_splits)
  show ?thesis
    using assms(1,2) len items_loop_records[OF assms(3)]
    by (simp add: decode_block_def block_records_def)
qed

section \<open>The claims about the block decoder\<close>

text \<open>
  C9. For a block whose header carries the query's \<open>tid\<close> and one of the three section
  types, the decoder appends to its output exactly those records of the block that
  satisfy \<open>end > query.start\<close> and \<open>start < query.end\<close>, in block order, each with the
  start, end and value that the payload holds: nothing is clamped to the query.
\<close>

theorem decoder_emits_overlapping_records_unclamped:
  assumes "bwFillDataHdr uncompressed = Inr hdr" and "hTid hdr = tid"
    and "hType hdr = 1 \<or> hType hdr = 2 \<or> hType hdr = 3"
  shows "decode_block uncompressed tid ostart oend output
         = Inr (output @ filter (\<lambda>(s, e, v). e > ostart \<and> s < oend)
                           (block_records hdr uncompressed))"
proof -
  have "overlaps_query ostart oend = (\<lambda>(s, e, v). e > ostart \<and> s < oend)"
    by (auto simp: overlaps_query_def fun_eq_iff)
  then show ?thesis using decode_block_records[OF assms] by simp
qed

theorem decoder_emits_overlapping_records_unclamped_witness:
  "bwFillDataHdr ex_bedgraph_block
     = Inr \<lparr> hTid = 0, hStart = 100, hEnd = 500, hStep = 0, hSpan = 0, hType = 1, hNItems = 3 \<rparr>
   \<and> block_records \<lparr> hTid = 0, hStart = 100, hEnd = 500, hStep = 0, hSpan = 0, hType = 1, hNItems = 3 \<rparr>
        ex_bedgraph_block
       = [(100, 200, 0x3F800000), (200, 300, 0x40000000), (400, 500, 0x40400000)]
   \<and> decode_block ex_bedgraph_block 0 150 450 []
       = Inr [(100, 200, 0x3F800000), (200, 300, 0x40000000), (400, 500, 0x40400000)]
   \<and> decode_block ex_bedgraph_block 0 250 300 []
       = Inr [(200, 300, 0x40000000)]"
proof -
  let ?h = "\<lparr> hTid = 0, hStart = 100, hEnd = 500, hStep = 0, hSpan = 0, hType = 1, hNItems = 3 \<rparr>"
  have h: "bwFillDataHdr ex_bedgraph_block = Inr ?h" by code_simp
  have r: "block_records ?h ex_bedgraph_block
           = [(100, 200, 0x3F800000), (200, 300, 0x40000000), (400, 500, 0x40400000)]"
    by code_simp
  have t: "hTid ?h = 0" "hType ?h = 1 \<or> hType ?h = 2 \<or> hType ?h = 3" by simp_all
  show ?thesis
    using h r
      decoder_emits_overlapping_records_unclamped[OF h t, of 150 450 "[]"]
      decoder_emits_overlapping_records_unclamped[OF h t, of 250 300 "[]"]
    by simp
qed

text \<open>
  C4. In a fixedStep block (type 3) the record number \<open>j\<close>, counted from 0, is the
  interval from \<open>header.start + (j + 1) * step\<close> to that plus \<open>span\<close> (in \<open>uint32\<close>
  arithmetic, as the code computes it), with the \<open>j\<close>-th \<open>float32\<close> of the payload as
  its value; the records present are those below \<open>nItems\<close> that the payload holds in
  full, and the decoder emits the ones that overlap the query.
\<close>

theorem fixedStep_record_positions:
  assumes "bwFillDataHdr uncompressed = Inr hdr" and "hTid hdr = tid" and "hType hdr = 3"
  shows "decode_block uncompressed tid ostart oend output
         = Inr (output @ filter (\<lambda>(s, e, v). e > ostart \<and> s < oend)
             (map (\<lambda>j. (hStart hdr + (of_nat j + 1) * hStep hdr,
                          hStart hdr + (of_nat j + 1) * hStep hdr + hSpan hdr,
                          le32 (drop (24 + 4 * j) uncompressed)))
                  [0..<min (unat (hNItems hdr)) ((length uncompressed - 24) div 4)]))"
proof -
  have q: "overlaps_query ostart oend = (\<lambda>(s, e, v). e > ostart \<and> s < oend)"
    by (auto simp: overlaps_query_def fun_eq_iff)
  have d: "\<And>j. drop (4 * j) (drop 24 uncompressed) = drop (24 + 4 * j) uncompressed"
    by (simp add: add.commute)
  have "block_records hdr uncompressed
        = map (\<lambda>j. (hStart hdr + (of_nat j + 1) * hStep hdr,
                          hStart hdr + (of_nat j + 1) * hStep hdr + hSpan hdr,
                          le32 (drop (24 + 4 * j) uncompressed)))
                  [0..<min (unat (hNItems hdr)) ((length uncompressed - 24) div 4)]"
    unfolding block_records_def records_fixedStep[OF assms(3)] d by simp
  then show ?thesis
    using decode_block_records[OF assms(1,2), of ostart oend "output"] assms(3) q by simp
qed

theorem fixedStep_record_positions_witness:
  "bwFillDataHdr ex_fixedstep_block
     = Inr \<lparr> hTid = 0, hStart = 1000, hEnd = 1045, hStep = 10, hSpan = 5, hType = 3, hNItems = 4 \<rparr>
   \<and> decode_block ex_fixedstep_block 0 0 10000 []
       = Inr [(1010, 1015, 0x40A00000), (1020, 1025, 0x40C00000),
              (1030, 1035, 0x40E00000), (1040, 1045, 0x41000000)]"
proof -
  let ?h = "\<lparr> hTid = 0, hStart = 1000, hEnd = 1045, hStep = 10, hSpan = 5, hType = 3, hNItems = 4 \<rparr>"
  have h: "bwFillDataHdr ex_fixedstep_block = Inr ?h" by code_simp
  have t: "hTid ?h = 0" "hType ?h = 3" by simp_all
  have n: "min (unat (hNItems ?h)) ((length ex_fixedstep_block - 24) div 4) = 4"
    by (simp add: ex_fixedstep_block_def)
  have u: "[0..<4] = [0, 1, 2, 3]" by code_simp
  have v: "le32 (drop 24 ex_fixedstep_block) = 0x40A00000"
          "le32 (drop 28 ex_fixedstep_block) = 0x40C00000"
          "le32 (drop 32 ex_fixedstep_block) = 0x40E00000"
          "le32 (drop 36 ex_fixedstep_block) = 0x41000000"
    by code_simp+
  show ?thesis
    using h fixedStep_record_positions[OF h t, of 0 10000 "[]"]
    unfolding n u by (simp add: v)
qed

section \<open>The claims about queries\<close>


lemma core_append_Inr:
  assumes "bwGetOverlappingIntervalsCore fp (xs @ ys) tid ostart oend = Inr r"
  obtains a b where "bwGetOverlappingIntervalsCore fp xs tid ostart oend = Inr a"
    and "bwGetOverlappingIntervalsCore fp ys tid ostart oend = Inr b" and "r = a @ b"
  using assms unfolding core_append by (auto split: sum.splits)

text \<open>
  The loop invariant: the current batch \<open>b\<close> is still to be collected, and the blocks
  from \<open>Offset\<close> on decode to \<open>rest\<close>.
\<close>

lemma iter_loop_drains:
  assumes "Blocks it = Some bl" and "Type (Bw it) = 0"
    and "0 < unat (BlocksPerIteration it)"
    and "Intervals it = Some b" and "Data it = Some d"
    and "bwGetOverlappingIntervalsCore (Bw it) (drop (Offset it) bl) (Tid it) (Start it) (End it)
         = Inr rest"
    and "length bl - Offset it + 2 \<le> fuel"
  shows "iter_loop fuel (Some it) acc = Some (Inr (acc @ b @ rest))"
  using assms
proof (induction fuel arbitrary: it acc b d rest)
  case 0
  then show ?case by simp
next
  case (Suc fuel)
  let ?k = "unat (BlocksPerIteration it)"
  have step: "iter_loop (Suc fuel) (Some it) acc
              = iter_loop fuel (bwIteratorNext (Some it)) (acc @ b)"
    using Suc.prems(4,5) by simp
  show ?case
  proof (cases "Offset it < length bl")
    case True
    let ?cur = "take ?k (drop (Offset it) bl)"
    have cur: "take (if Offset it + ?k > length bl then length bl - Offset it else ?k)
                 (drop (Offset it) bl) = ?cur"
      by simp
    have split: "drop (Offset it) bl = ?cur @ drop (Offset it + ?k) bl"
      by (metis append_take_drop_id drop_drop add.commute)
    obtain b' rest' where
      b': "bwGetOverlappingIntervalsCore (Bw it) ?cur (Tid it) (Start it) (End it) = Inr b'"
      and rest': "bwGetOverlappingIntervalsCore (Bw it) (drop (Offset it + ?k) bl)
                    (Tid it) (Start it) (End it) = Inr rest'"
      and r: "rest = b' @ rest'"
      using Suc.prems(6) split core_append_Inr by metis
    define it3 where "it3 = it\<lparr> Intervals := Some b', Data := Some (Some b'),
                                 Offset := Offset it + ?k \<rparr>"
    have b'': "length bl < Offset it + ?k \<Longrightarrow>
          bwGetOverlappingIntervalsCore (Bw it) (drop (Offset it) bl) (Tid it) (Start it) (End it)
          = Inr b'"
      using b' by simp
    have nx: "bwIteratorNext (Some it) = Some it3"
      using Suc.prems(1,2) True b' b''
      by (simp add: bwIteratorNext_def Let_def ptr_def it3_def)
    have "iter_loop fuel (Some it3) (acc @ b) = Some (Inr ((acc @ b) @ b' @ rest'))"
    proof (rule Suc.IH)
      show "Blocks it3 = Some bl" using Suc.prems(1) by (simp add: it3_def)
      show "Type (Bw it3) = 0" using Suc.prems(2) by (simp add: it3_def)
      show "0 < unat (BlocksPerIteration it3)" using Suc.prems(3) by (simp add: it3_def)
      show "Intervals it3 = Some b'" by (simp add: it3_def)
      show "Data it3 = Some (Some b')" by (simp add: it3_def)
      show "bwGetOverlappingIntervalsCore (Bw it3) (drop (Offset it3) bl) (Tid it3)
              (Start it3) (End it3) = Inr rest'"
        using rest' by (simp add: it3_def)
      show "length bl - Offset it3 + 2 \<le> fuel"
        using Suc.prems(3,7) True by (simp add: it3_def)
    qed
    then show ?thesis using step nx r by simp
  next
    case False
    then have "drop (Offset it) bl = []" by simp
    then have r: "rest = []"
      using Suc.prems(6) by (simp add: bwGetOverlappingIntervalsCore_def)
    have nx: "bwIteratorNext (Some it) = Some (it\<lparr> Intervals := None, Data := None \<rparr>)"
      using Suc.prems(1) False by (simp add: bwIteratorNext_def Let_def)
    obtain f where f: "fuel = Suc f" using Suc.prems(7) by (cases fuel) auto
    show ?thesis using step nx r f by simp
  qed
qed

text \<open>
  C5. For a bigWig file (\<open>Type = 0\<close>, as \<open>OpenBigWig\<close> sets it) and
  \<open>blocksPerIteration >= 1\<close>: when the one-shot query \<open>bwGetOverlappingIntervals\<close>
  succeeds with the intervals \<open>ivs\<close>, the loop that starts with
  \<open>bwOverlappingIntervalsIterator\<close> and calls \<open>bwIteratorNext\<close> until \<open>Data\<close> is nil
  ends, and the batches it has seen, concatenated, are \<open>ivs\<close> in the same order.
\<close>

theorem iterator_batches_concat_to_one_shot:
  assumes k: "0 < blocksPerIteration" and ty: "Type fp = 0"
    and one: "bwGetOverlappingIntervals fp chrom start end = Inr ivs"
  shows "\<exists>n. \<forall>fuel\<ge>n. iterate_all fuel fp chrom start end blocksPerIteration = Some (Inr ivs)"
proof -
  let ?tid = "bwGetTid fp chrom"
  let ?k = "unat blocksPerIteration"
  have tid: "?tid \<noteq> TID_NONE"
    using one by (auto simp: bwGetOverlappingIntervals_def Let_def split: if_splits)
  then obtain bl where bl: "bwGetOverlappingBlocks fp chrom start end = Inr bl"
    and core: "bwGetOverlappingIntervalsCore fp bl ?tid start end = Inr ivs"
    using one by (auto simp: bwGetOverlappingIntervals_def Let_def split: sum.splits)
  have "bl = take ?k bl @ drop ?k bl" by simp
  then obtain b0 rest0 where
    b0: "bwGetOverlappingIntervalsCore fp (take ?k bl) ?tid start end = Inr b0"
    and rest0: "bwGetOverlappingIntervalsCore fp (drop ?k bl) ?tid start end = Inr rest0"
    and ivs: "ivs = b0 @ rest0"
    using core core_append_Inr by metis
  define it0 where "it0 = \<lparr> Bw = fp, Tid = ?tid, Start = start, End = end, Offset = ?k,
                             BlocksPerIteration = blocksPerIteration, Blocks = Some bl,
                             Intervals = Some b0, Data = Some (Some b0) \<rparr>"
  have mk: "bwOverlappingIntervalsIterator fp chrom start end blocksPerIteration = Some it0"
    using tid bl b0 by (simp add: bwOverlappingIntervalsIterator_def Let_def ptr_def it0_def)
  have kpos: "0 < ?k" using k by (simp add: word_less_nat_alt)
  have "\<forall>fuel\<ge>length bl + 2.
          iterate_all fuel fp chrom start end blocksPerIteration = Some (Inr ivs)"
  proof (intro allI impI)
    fix fuel assume f: "length bl + 2 \<le> fuel"
    have "iter_loop fuel (Some it0) [] = Some (Inr ([] @ b0 @ rest0))"
    proof (rule iter_loop_drains)
      show "Blocks it0 = Some bl" by (simp add: it0_def)
      show "Type (Bw it0) = 0" using ty by (simp add: it0_def)
      show "0 < unat (BlocksPerIteration it0)" using kpos by (simp add: it0_def)
      show "Intervals it0 = Some b0" by (simp add: it0_def)
      show "Data it0 = Some (Some b0)" by (simp add: it0_def)
      show "bwGetOverlappingIntervalsCore (Bw it0) (drop (Offset it0) bl) (Tid it0)
              (Start it0) (End it0) = Inr rest0"
        using rest0 by (simp add: it0_def)
      show "length bl - Offset it0 + 2 \<le> fuel" using f by (simp add: it0_def)
    qed
    then show "iterate_all fuel fp chrom start end blocksPerIteration = Some (Inr ivs)"
      using mk ivs by (simp add: iterate_all_def)
  qed
  then show ?thesis by blast
qed

theorem iterator_batches_concat_to_one_shot_witness:
  "bwGetOverlappingIntervals ex_file ''chr1'' 0 10000 = Inr ex_intervals
   \<and> (\<exists>n. \<forall>fuel\<ge>n. iterate_all fuel ex_file ''chr1'' 0 10000 2 = Some (Inr ex_intervals))
   \<and> iterate_all 5 ex_file ''chr1'' 0 10000 2 = Some (Inr ex_intervals)"
proof -
  have k: "(0 :: u32) < 2" by simp
  have ty: "Type ex_file = 0" by (simp add: ex_file_def)
  have one: "bwGetOverlappingIntervals ex_file ''chr1'' 0 10000 = Inr ex_intervals"
    by code_simp
  have run: "iterate_all 5 ex_file ''chr1'' 0 10000 2 = Some (Inr ex_intervals)"
    by code_simp
  show ?thesis
    using one run iterator_batches_concat_to_one_shot[OF k ty one] by simp
qed




text \<open>
  C8. A block that is read and decompressed without error and whose header carries a
  \<open>tid\<close> other than the query's changes nothing, wherever it stands in the block list:
  the decoder returns what it returns on the list without that block, so the block adds
  no interval, raises no error, and the blocks after it are decoded as before.
\<close>

theorem block_of_other_tid_is_skipped:
  assumes f: "fetch_block fp blk = Inr uncompressed"
    and h: "bwFillDataHdr uncompressed = Inr hdr"
    and t: "hTid hdr \<noteq> tid"
  shows "bwGetOverlappingIntervalsCore fp (pre @ blk # post) tid ostart oend
         = bwGetOverlappingIntervalsCore fp (pre @ post) tid ostart oend"
proof -
  have len: "\<not> length uncompressed < 24"
    using h by (auto simp: bwFillDataHdr_def split: if_splits)
  have sk: "\<And>out. core_loop fp (blk # post) tid ostart oend out
              = core_loop fp post tid ostart oend out"
    using f h t len by (simp add: decode_block_def)
  show ?thesis
    unfolding core_is_loop core_loop_append
    by (cases "core_loop fp pre tid ostart oend []") (simp_all only: sk sum.case)
qed

theorem block_of_other_tid_is_skipped_witness:
  "fetch_block ex_file (2000, 48) = Inr ex_chr2_block
   \<and> bwFillDataHdr ex_chr2_block
       = Inr \<lparr> hTid = 1, hStart = 5, hEnd = 20, hStep = 0, hSpan = 0, hType = 1, hNItems = 2 \<rparr>
   \<and> bwGetOverlappingIntervalsCore ex_file [(1000, 60), (2000, 48), (3000, 40)] 0 0 10000
       = Inr ex_intervals
   \<and> bwGetOverlappingIntervalsCore ex_file [(1000, 60), (3000, 40)] 0 0 10000
       = Inr ex_intervals"
proof -
  let ?h = "\<lparr> hTid = 1, hStart = 5, hEnd = 20, hStep = 0, hSpan = 0, hType = 1, hNItems = 2 \<rparr>"
  have f: "fetch_block ex_file (2000, 48) = Inr ex_chr2_block" by code_simp
  have h: "bwFillDataHdr ex_chr2_block = Inr ?h" by code_simp
  have t: "hTid ?h \<noteq> 0" by simp
  have r: "bwGetOverlappingIntervalsCore ex_file [(1000, 60), (3000, 40)] 0 0 10000
           = Inr ex_intervals"
    by code_simp
  show ?thesis
    using f h r block_of_other_tid_is_skipped[OF f h t, of "[(1000, 60)]" "[(3000, 40)]" 0 10000]
    by simp
qed

section \<open>The claim about per-base values\<close>

lemma na_write_length: "length (na_write start end v j out) = length out"
  by (simp add: na_write_def)

lemma na_write_nth:
  assumes "length out = unat end - unat start" and "p < length out"
  shows "na_write start end v j out ! p = (if j = unat start + p then v else out ! p)"
  using assms by (auto simp: na_write_def nth_list_update)

lemma fold_na_write:
  assumes "length out = unat end - unat start"
  shows "length (fold (na_write start end v) [a..<b] out) = length out
       \<and> (\<forall>p < length out. fold (na_write start end v) [a..<b] out ! p
              = (if a \<le> unat start + p \<and> unat start + p < b then v else out ! p))"
proof (induction b)
  case 0
  then show ?case by simp
next
  case (Suc b)
  show ?case
  proof (cases "a \<le> b")
    case False
    then show ?thesis by auto
  next
    case True
    let ?o = "fold (na_write start end v) [a..<b] out"
    have f: "fold (na_write start end v) [a..<Suc b] out = na_write start end v b ?o"
      using True by simp
    have len: "length ?o = unat end - unat start" using Suc.IH assms by simp
    have "na_write start end v b ?o ! p
          = (if a \<le> unat start + p \<and> unat start + p < Suc b then v else out ! p)"
      if p: "p < length out" for p
    proof -
      have "na_write start end v b ?o ! p = (if b = unat start + p then v else ?o ! p)"
        using na_write_nth[OF len, of p v b] p assms len by simp
      also have "\<dots> = (if a \<le> unat start + p \<and> unat start + p < Suc b then v else out ! p)"
        using Suc.IH p True by auto
      finally show ?thesis .
    qed
    then show ?thesis
      unfolding f using Suc.IH by (simp add: na_write_length)
  qed
qed

lemma case_snoc_last:
  "(case xs @ [x] of [] \<Rightarrow> a | y # ys \<Rightarrow> g (last (y # ys))) = g x"
  by (cases xs) simp_all

lemma fold_intervals_na:
  assumes "length init = unat end - unat start"
  shows "length (fold (\<lambda>(s, e, v) out. fold (na_write start end v) [unat s..<unat e] out) ivs init)
           = length init
       \<and> (\<forall>p < length init.
             fold (\<lambda>(s, e, v) out. fold (na_write start end v) [unat s..<unat e] out) ivs init ! p
             = (case filter (\<lambda>(s, e, v). unat s \<le> unat start + p \<and> unat start + p < unat e) ivs of
                  [] \<Rightarrow> init ! p
                | xs \<Rightarrow> snd (snd (last xs))))"
proof (induction ivs rule: rev_induct)
  case Nil
  then show ?case by simp
next
  case (snoc x ivs)
  obtain s e v where x: "x = (s, e, v)" by (cases x) auto
  let ?g = "\<lambda>(s, e, v) out. fold (na_write start end v) [unat s..<unat e] out"
  let ?o = "fold ?g ivs init"
  have len: "length ?o = unat end - unat start" using snoc.IH assms by simp
  have st: "fold ?g (ivs @ [x]) init = fold (na_write start end v) [unat s..<unat e] ?o"
    by (simp add: x)
  note w = fold_na_write[OF len, of v "unat s" "unat e"]
  have l: "length (fold ?g (ivs @ [x]) init) = length init"
    unfolding st using w len assms by simp
  have v: "fold ?g (ivs @ [x]) init ! p
           = (case filter (\<lambda>(s, e, v). unat s \<le> unat start + p \<and> unat start + p < unat e) (ivs @ [x]) of
                  [] \<Rightarrow> init ! p
                | xs \<Rightarrow> snd (snd (last xs)))" if p: "p < length init" for p
  proof (cases "unat s \<le> unat start + p \<and> unat start + p < unat e")
    case True
    have "fold ?g (ivs @ [x]) init ! p = v"
      unfolding st using w p len assms True by simp
    moreover have "filter (\<lambda>(s, e, v). unat s \<le> unat start + p \<and> unat start + p < unat e) (ivs @ [x])
          = filter (\<lambda>(s, e, v). unat s \<le> unat start + p \<and> unat start + p < unat e) ivs @ [x]"
      using True by (simp add: x)
    ultimately show ?thesis
      using case_snoc_last[where xs = "filter (\<lambda>(s, e, v). unat s \<le> unat start + p \<and> unat start + p < unat e) ivs"
              and x = x and a = "init ! p" and g = "\<lambda>xs. snd (snd xs)"]
      by (simp add: x)
  next
    case False
    have "fold ?g (ivs @ [x]) init ! p = ?o ! p"
      unfolding st using w p len assms False by auto
    moreover have "filter (\<lambda>(s, e, v). unat s \<le> unat start + p \<and> unat start + p < unat e) (ivs @ [x])
          = filter (\<lambda>(s, e, v). unat s \<le> unat start + p \<and> unat start + p < unat e) ivs"
      using False by (simp add: x)
    ultimately show ?thesis using snoc.IH p by simp
  qed
  show ?case using l v by blast
qed

text \<open>
  C10. Let the interval query of \<open>bwGetValues\<close> succeed with the intervals \<open>ivs\<close>, and
  \<open>start <= end\<close>. With \<open>includeNA = true\<close> the call succeeds, its \<open>Value\<close> slice has
  \<open>end - start\<close> entries, and entry \<open>p\<close> (the base \<open>start + p\<close>) is NaN when no interval
  of \<open>ivs\<close> covers that base, and otherwise the value of the last interval of \<open>ivs\<close>
  that covers it.
\<close>

theorem bwGetValues_includeNA:
  assumes one: "bwGetOverlappingIntervals fp chrom start end = Inr ivs" and le: "start \<le> end"
  shows "\<exists>out. bwGetValues fp chrom start end True = Inr out
           \<and> length (vValue out) = unat (end - start)
           \<and> (\<forall>p < unat (end - start). vValue out ! p
                = (case filter (\<lambda>(s, e, v). unat s \<le> unat start + p \<and> unat start + p < unat e) ivs of
                     [] \<Rightarrow> f32_NaN
                   | xs \<Rightarrow> snd (snd (last xs))))"
proof -
  have w: "unat (end - start) = unat end - unat start"
    using le by (simp add: unat_sub)
  let ?init = "replicate (unat (end - start)) f32_NaN"
  have len: "length ?init = unat end - unat start" using w by simp
  note f = fold_intervals_na[OF len, of ivs]
  have "\<forall>p < unat (end - start).
          (case filter (\<lambda>(s, e, v). unat s \<le> unat start + p \<and> unat start + p < unat e) ivs of
             [] \<Rightarrow> ?init ! p
           | xs \<Rightarrow> snd (snd (last xs)))
          = (case filter (\<lambda>(s, e, v). unat s \<le> unat start + p \<and> unat start + p < unat e) ivs of
               [] \<Rightarrow> f32_NaN
             | xs \<Rightarrow> snd (snd (last xs)))"
    by (simp split: list.splits)
  then show ?thesis
    using one f by (simp add: bwGetValues_def Let_def)
qed

theorem bwGetValues_includeNA_witness:
  "(8 :: u32) \<le> 22
   \<and> bwGetOverlappingIntervals ex_file ''chr2'' 8 22
       = Inr [(5, 15, 0x41100000), (10, 20, 0x40800000)]
   \<and> bwGetValues ex_file ''chr2'' 8 22 True
       = Inr \<lparr> vL = 14, vStart = [],
                vValue = [0x41100000, 0x41100000,
                          0x40800000, 0x40800000, 0x40800000, 0x40800000, 0x40800000,
                          0x40800000, 0x40800000, 0x40800000, 0x40800000, 0x40800000,
                          f32_NaN, f32_NaN] \<rparr>
   \<and> (\<exists>out. bwGetValues ex_file ''chr2'' 8 22 True = Inr out
           \<and> length (vValue out) = unat (22 - 8 :: u32)
           \<and> (\<forall>p < unat (22 - 8 :: u32). vValue out ! p
                = (case filter (\<lambda>(s, e, v). unat s \<le> unat (8 :: u32) + p \<and> unat (8 :: u32) + p < unat e)
                          [(5 :: u32, 15 :: u32, 0x41100000), (10, 20, 0x40800000)] of
                     [] \<Rightarrow> f32_NaN
                   | xs \<Rightarrow> snd (snd (last xs)))))"
proof -
  have le: "(8 :: u32) \<le> 22" by simp
  have one: "bwGetOverlappingIntervals ex_file ''chr2'' 8 22
             = Inr [(5, 15, 0x41100000), (10, 20, 0x40800000)]"
    by code_simp
  have run: "bwGetValues ex_file ''chr2'' 8 22 True
       = Inr \<lparr> vL = 14, vStart = [],
                vValue = [0x41100000, 0x41100000,
                          0x40800000, 0x40800000, 0x40800000, 0x40800000, 0x40800000,
                          0x40800000, 0x40800000, 0x40800000, 0x40800000, 0x40800000,
                          f32_NaN, f32_NaN] \<rparr>"
    by code_simp
  note t = bwGetValues_includeNA[OF one le]
  show ?thesis
    by (intro conjI le one run t)
qed

section \<open>The claim about the overlap walker\<close>

text \<open>
  C2, at a leaf where the code departs from it. The query is chromosome 0, 100 to 200.
  The first child spans chromosomes 0 and 1 from base 900 on and is rejected; the
  second child lies on chromosome 0 at 100 to 200 and passes the acceptance predicate.
  The counting loop of \<open>overlapsLeaf\<close> leaves at the first child (\<open>break\<close>, where the
  filling loop and \<open>overlapsNonLeaf\<close> have \<open>continue\<close>), so the leaf reports no block.
  With the two children in the other order the same leaf reports the block, and a
  branch node over the same two boxes in the same order reaches it too.
\<close>

theorem overlapsLeaf_break_hides_later_child:
  "overlapsLeaf ex_leaf_unsorted 0 100 200 = Inr []
   \<and> overlapsLeaf ex_leaf_sorted 0 100 200 = Inr [(2000, 60)]
   \<and> overlapsNonLeaf ex_branch_unsorted 0 100 200 = Inr [(2000, 60)]"
  by code_simp

section \<open>The claims about the zoom engine\<close>

lemma f32_isNaN_NaN: "f32_isNaN f32_NaN"
  by (simp add: f32_isNaN_def f32_NaN_def)

lemma zoom_bin_no_summaries: "validCount (zoom_bin [] start end numBins i) = 0"
  by (simp add: zoom_bin_def bin_init_def)

lemma ex_zoom_summaries:
  "bwGetSummariesInRegion ex_zoom_file 0 ''chr1'' 0 400 = Inr ex_summaries"
  by code_simp

lemma ex_zoom_inner:
  "bwGetValuesFromZoom ex_zoom_file 0 ''chr1'' 0 400 4 ''mean''
   = Inr [0x3F800000, 0x40000000, f32_NaN, f32_NaN]"
  by code_simp

lemma ex_zoom_values:
  "GetZoomValues ex_zoom_file ''chr1'' 0 400 4 False 100 = Inr [0x3F800000, 0x40000000, 0, 0]"
  by code_simp

lemma ex_zoom_gap: "validCount (zoom_bin ex_summaries 0 400 4 2) = 0"
  by code_simp




text \<open>
  C1 as the specification states it fails on \<open>GetZoomValues\<close>. On the file with the two
  summaries, the query 0 to 400 in 4 bins finds nothing for the third bin (its
  \<open>validCount\<close> is 0), and \<open>GetZoomValues\<close> returns 0 there, which is not NaN: the mean
  values are 1.0, 2.0, 0, 0.
\<close>

theorem GetZoomValues_gap_bin_is_zero_not_NaN:
  "GetZoomValues ex_zoom_file ''chr1'' 0 400 4 False 100 = Inr [0x3F800000, 0x40000000, 0, 0]
   \<and> bwGetSummariesInRegion ex_zoom_file 0 ''chr1'' 0 400 = Inr ex_summaries
   \<and> validCount (zoom_bin ex_summaries 0 400 4 2) = 0
   \<and> \<not> f32_isNaN ([0x3F800000, 0x40000000, 0, 0] ! 2)"
  using ex_zoom_values ex_zoom_summaries ex_zoom_gap by (simp add: f32_isNaN_def)

text \<open>
  C1, as the code has it. When \<open>GetZoomValues\<close> succeeds, it has selected a zoom level
  and read its summaries; the array it returns has \<open>numBins\<close> entries; and for every
  bin whose accumulated \<open>validCount\<close> is 0, the inner \<open>bwGetValuesFromZoom\<close> holds NaN
  and \<open>GetZoomValues\<close>, which replaces every NaN by 0 before it returns, holds 0.
\<close>

theorem GetZoomValues_length_and_gap_bins:
  assumes ok: "GetZoomValues fp chrom start end numBins useClosest desiredReduction = Inr vals"
  shows "\<exists>zoomIdx summaries inner.
           bwGetSummariesInRegion fp zoomIdx chrom (word_of_int start) (word_of_int end)
             = Inr summaries
         \<and> bwGetValuesFromZoom fp zoomIdx chrom (word_of_int start) (word_of_int end)
               numBins ''mean'' = Inr inner
         \<and> length inner = nat numBins
         \<and> length vals = nat numBins
         \<and> (\<forall>i < nat numBins.
               validCount (zoom_bin summaries (word_of_int start) (word_of_int end)
                             numBins (int i)) = 0
               \<longrightarrow> inner ! i = f32_NaN \<and> vals ! i = 0)"
proof -
  define zoomIdx where
    "zoomIdx = (if useClosest
                then bwGetBestZoomClosest (hd (ZoomHdrs fp)) (word_of_int desiredReduction)
                else bwSelectBestZoomLevel (hd (ZoomHdrs fp)) (word_of_int desiredReduction))"
  let ?s = "word_of_int start :: u32"
  let ?e = "word_of_int end :: u32"
  obtain inner where
    inner: "bwGetValuesFromZoom fp zoomIdx chrom ?s ?e numBins ''mean'' = Inr inner"
    and vals: "vals = map (\<lambda>v. if f32_isNaN v then 0 else v) inner"
    using ok unfolding GetZoomValues_def zoomIdx_def Let_def
    by (auto split: if_splits sum.splits)
  obtain summaries where
    sums: "bwGetSummariesInRegion fp zoomIdx chrom ?s ?e = Inr summaries"
    and nb: "\<not> numBins < 0"
    and inner_eq: "inner = (if length summaries = 0 then replicate (nat numBins) f32_NaN
                            else map (\<lambda>i. zoom_bin_value ''mean'' summaries ?s ?e numBins (int i))
                                     [0..<nat numBins])"
    using inner unfolding bwGetValuesFromZoom_def
    by (auto split: sum.splits if_splits)
  have len: "length inner = nat numBins" using inner_eq by simp
  have gap: "inner ! i = f32_NaN \<and> vals ! i = 0"
    if i: "i < nat numBins"
      and z: "validCount (zoom_bin summaries ?s ?e numBins (int i)) = 0" for i
  proof -
    have "inner ! i = f32_NaN"
      using inner_eq i z by (simp add: zoom_bin_value_def Let_def)
    then show ?thesis using vals len i f32_isNaN_NaN by simp
  qed
  have lv: "length vals = nat numBins" using vals len by simp
  show ?thesis
  proof (intro exI conjI allI impI)
    show "bwGetSummariesInRegion fp zoomIdx chrom ?s ?e = Inr summaries" by (rule sums)
    show "bwGetValuesFromZoom fp zoomIdx chrom ?s ?e numBins ''mean'' = Inr inner"
      by (rule inner)
    show "length inner = nat numBins" by (rule len)
    show "length vals = nat numBins" by (rule lv)
  next
    fix i
    assume "i < nat numBins"
      and "validCount (zoom_bin summaries ?s ?e numBins (int i)) = 0"
    then show "inner ! i = f32_NaN" using gap by blast
  next
    fix i
    assume "i < nat numBins"
      and "validCount (zoom_bin summaries ?s ?e numBins (int i)) = 0"
    then show "vals ! i = 0" using gap by blast
  qed
qed

theorem GetZoomValues_length_and_gap_bins_witness:
  "GetZoomValues ex_zoom_file ''chr1'' 0 400 4 False 100 = Inr [0x3F800000, 0x40000000, 0, 0]
   \<and> (\<exists>zoomIdx summaries inner.
           bwGetSummariesInRegion ex_zoom_file zoomIdx ''chr1'' (word_of_int 0) (word_of_int 400)
             = Inr summaries
         \<and> bwGetValuesFromZoom ex_zoom_file zoomIdx ''chr1'' (word_of_int 0) (word_of_int 400)
               4 ''mean'' = Inr inner
         \<and> length inner = nat 4
         \<and> length [0x3F800000, 0x40000000, 0, 0 :: f32] = nat 4
         \<and> (\<forall>i < nat 4.
               validCount (zoom_bin summaries (word_of_int 0) (word_of_int 400) 4 (int i)) = 0
               \<longrightarrow> inner ! i = f32_NaN \<and> [0x3F800000, 0x40000000, 0, 0 :: f32] ! i = 0))"
  using ex_zoom_values GetZoomValues_length_and_gap_bins [OF ex_zoom_values]
  by (intro conjI)





section \<open>The claim about the resource\<close>

text \<open>
  Where \<open>seek(Start, tell())\<close> changes nothing: on a local file, and on a remote file
  whose buffer holds no unread byte.
\<close>

lemma local_seek_to_tell:
  assumes "uType u = BWG_FILE" and "0 \<le> file_off u"
  shows "seek_to_tell u = u"
  using assms by (simp add: seek_to_tell_def tell_def Seek_def)

lemma remote_seek_to_tell_empty_buffer:
  assumes "uType u \<noteq> BWG_FILE" and "buf u = []"
  shows "seek_to_tell u = u"
  using assms by (simp add: seek_to_tell_def tell_def Seek_def)

text \<open>
  C3, at a remote file where the code departs from it. The server holds the bytes 10,
  20, 30, 40. The first \<open>Read\<close> of one byte fetches all four into the buffer and moves
  \<open>FilePos\<close> to 4 (\<open>fillBuffer\<close> adds the bytes fetched, not the bytes delivered), so
  the next \<open>Read\<close> of one byte returns 20. After \<open>seek(Start, tell())\<close> in that state,
  \<open>tell\<close> has answered 4, the buffer is dropped, and the next \<open>Read\<close> returns no byte
  and \<open>io.EOF\<close>. On the local file with the same bytes the next \<open>Read\<close> returns 20
  either way.
\<close>

theorem remote_seek_to_tell_changes_reads:
  "fst (Read ex_remote 1) = ([10], None)
   \<and> fst (Read (snd (Read ex_remote 1)) 1) = ([20], None)
   \<and> fst (tell (snd (Read ex_remote 1))) = 4
   \<and> fst (Read (seek_to_tell (snd (Read ex_remote 1))) 1) = ([], Some EOF)
   \<and> fst (Read (snd (Read ex_local 1)) 1) = ([20], None)
   \<and> fst (Read (seek_to_tell (snd (Read ex_local 1))) 1) = ([20], None)"
  by (simp add: Read_def fillBuffer_def buf_Read_def Seek_def tell_def seek_to_tell_def
      ex_remote_def ex_local_def)

end
